theory Spec2Isabelle
  imports Complex_Main
begin

text \<open>
  Griddo runs squares contests: a 10 by 10 grid, two number assignments, and a winner per
  quarter by the last digits of the two scores. This theory embeds the score pipeline of
  the edge function (\<open>processQuarter\<close>, the quarter resolution and the contest loop of
  the run handler) and the manual score entry (\<open>saveScores\<close>), and proves the
  properties the specification states about them.
\<close>

section \<open>JavaScript values\<close>

text \<open>
  The score pipeline is TypeScript. Scores, digits and grid indices are integers and are
  modelled as \<open>int\<close>; prices and prize amounts are modelled as exact rationals (IEEE
  rounding of JavaScript numbers is outside the model, as are \<open>NaN\<close> scores).
  A value of type \<open>string | null\<close> is a \<open>string option\<close>; JavaScript treats both
  \<open>null\<close> and the empty string as false.
\<close>

definition truthy :: "string option \<Rightarrow> bool" where
  "truthy s = (case s of None \<Rightarrow> False | Some v \<Rightarrow> v \<noteq> [])"

text \<open>\<open>s || null\<close> and \<open>s || d\<close> on strings.\<close>

definition or_null :: "string option \<Rightarrow> string option" where
  "or_null s = (if truthy s then s else None)"

definition or_else :: "string option \<Rightarrow> string \<Rightarrow> string" where
  "or_else s d = (case s of None \<Rightarrow> d | Some v \<Rightarrow> if v = [] then d else v)"

text \<open>
  The remainder operator \<open>a % b\<close> on integers truncates towards zero: the result has
  the sign of the dividend.
\<close>

definition js_rem :: "int \<Rightarrow> int \<Rightarrow> int" where
  "js_rem a b = sgn a * (\<bar>a\<bar> mod \<bar>b\<bar>)"

text \<open>\<open>Array.prototype.indexOf\<close>: the first position of the value, or \<open>-1\<close>.\<close>

fun indexOf_from :: "int list \<Rightarrow> int \<Rightarrow> int \<Rightarrow> int" where
  "indexOf_from [] v i = -1"
| "indexOf_from (x # xs) v i = (if x = v then i else indexOf_from xs v (i + 1))"

definition indexOf :: "int list \<Rightarrow> int \<Rightarrow> int" where
  "indexOf xs v = indexOf_from xs v 0"

section \<open>Rows of the store\<close>

text \<open>
  \<open>ContestRow\<close>, \<open>SquareRow\<close> and \<open>QuarterResult\<close> follow the interfaces of the edge
  function. The prize text columns of a contest are never read by the functions modelled
  here and are left out. \<open>row_numbers\<close> and \<open>col_numbers\<close> are nullable columns.
\<close>

record ContestRow =
  c_id :: string
  c_name :: string
  c_slug :: string
  owner_id :: string
  row_team_name :: string
  col_team_name :: string
  row_numbers :: "int list option"
  col_numbers :: "int list option"
  square_price :: rat
  payout_q1_percent :: "int option"
  payout_q2_percent :: "int option"
  payout_q3_percent :: "int option"
  payout_final_percent :: "int option"
  c_status :: string

record SquareRow =
  sq_id :: string
  row_index :: int
  col_index :: int
  claimant_first_name :: "string option"
  claimant_last_name :: "string option"
  claimant_email :: "string option"
  claimant_venmo :: "string option"

record QuarterResult =
  contest_id :: string
  quarter :: string
  home_score :: int
  away_score :: int
  home_last_digit :: int
  away_last_digit :: int
  winning_square_id :: "string option"
  winner_first_name :: "string option"
  winner_last_name :: "string option"
  winner_email :: "string option"
  winner_venmo :: "string option"
  prize_amount :: "rat option"
  payout_percent :: "int option"
  winner_email_sent :: bool
  owner_email_sent :: bool

text \<open>
  A stored row of \<open>super_bowl_quarter_results\<close>: the columns an upsert of a
  \<open>QuarterResult\<close> writes, and the two timestamp columns only the final update writes.
  The generated \<open>id\<close> and \<open>processed_at\<close> columns are never read and are left out.
\<close>

record QuarterResultRow =
  result :: QuarterResult
  winner_email_sent_at :: "string option"
  owner_email_sent_at :: "string option"

record ScoreRow =
  s_contest_id :: string
  s_quarter :: string
  s_home_score :: int
  s_away_score :: int
  s_winning_square_id :: "string option"
  entered_at :: string

section \<open>Helpers of the edge function\<close>

definition QUARTER_DISPLAY :: "string \<Rightarrow> string option" where
  "QUARTER_DISPLAY q =
     (if q = ''q1'' then Some ''Q1''
      else if q = ''q2'' then Some ''Halftime''
      else if q = ''q3'' then Some ''Q3''
      else if q = ''final'' then Some ''Final''
      else None)"

definition PERIOD_TO_QUARTER :: "int \<Rightarrow> string option" where
  "PERIOD_TO_QUARTER p =
     (if p = 1 then Some ''q1''
      else if p = 2 then Some ''q2''
      else if p = 3 then Some ''q3''
      else if p = 4 then Some ''final''
      else None)"

definition buildWinnerName :: "string option \<Rightarrow> string option \<Rightarrow> string" where
  "buildWinnerName firstName lastName =
     (case firstName of
        None \<Rightarrow> ''Unclaimed Square''
      | Some f \<Rightarrow>
          if f = [] then ''Unclaimed Square''
          else (case lastName of
                  None \<Rightarrow> f
                | Some l \<Rightarrow> if l = [] then f else f @ '' '' @ l))"

text \<open>
  \<open>contest[`payout_${quarter}_percent`]\<close>: the selected contest object has exactly the
  four football payout columns, so any other quarter name reads \<open>undefined\<close>.
\<close>

definition payout_column :: "ContestRow \<Rightarrow> string \<Rightarrow> int option" where
  "payout_column contest q =
     (if q = ''q1'' then payout_q1_percent contest
      else if q = ''q2'' then payout_q2_percent contest
      else if q = ''q3'' then payout_q3_percent contest
      else if q = ''final'' then payout_final_percent contest
      else None)"

definition getPayoutPercent :: "ContestRow \<Rightarrow> string \<Rightarrow> int" where
  "getPayoutPercent contest q = (case payout_column contest q of None \<Rightarrow> 0 | Some p \<Rightarrow> p)"

definition getPrizeAmount :: "ContestRow \<Rightarrow> string \<Rightarrow> rat" where
  "getPrizeAmount contest q =
     (let percent = getPayoutPercent contest q;
          totalPot = square_price contest * 100
      in (totalPot * of_int percent) / 100)"

section \<open>The world the pipeline acts on\<close>

text \<open>
  An email template is a pure function of its parameters; the model keeps the parameters
  and not the rendered HTML.
\<close>

record WinnerNotificationParams =
  w_participantName :: string
  w_contestName :: string
  w_quarterName :: string
  w_homeTeamName :: string
  w_awayTeamName :: string
  w_homeScore :: int
  w_awayScore :: int
  w_prizeAmount :: rat
  w_contestUrl :: string

record OwnerQuarterParams =
  o_ownerName :: string
  o_contestName :: string
  o_quarterName :: string
  o_homeTeamName :: string
  o_awayTeamName :: string
  o_homeScore :: int
  o_awayScore :: int
  o_winnerName :: string
  o_winnerEmail :: "string option"
  o_winnerVenmo :: "string option"
  o_prizeAmount :: rat

datatype template =
    WinnerNotificationEmail WinnerNotificationParams
  | OwnerQuarterEmail OwnerQuarterParams

text \<open>One call of the email transport, with the answer \<open>sendEmail\<close> returned for it.\<close>

record transport_call =
  mail_to :: string
  mail_template :: template
  accepted :: bool

record log_entry =
  action :: string
  status :: string
  detail_contestId :: string
  detail_quarter :: string
  detail_scores :: "(int \<times> int) option"
  error_message :: "string option"

record world =
  quarter_results :: "QuarterResultRow list"
  scores :: "ScoreRow list"
  outbox :: "transport_call list"
  processing_log :: "log_entry list"

text \<open>The user record \<open>auth.admin.getUserById\<close> returns.\<close>

record auth_user =
  user_email :: "string option"
  user_full_name :: "string option"
  user_name :: "string option"

text \<open>
  What the outside answers during one call of \<open>processQuarter\<close>: the squares query
  (data and error), the error of the result upsert, the user lookup, the transport
  (whether it accepts a message; the API key and the sender address are fixed for a run
  and belong to it), the clock, and \<open>encodeURIComponent\<close>.
  These are the failures the source handles. Store operations whose outcome the source
  does not inspect (the lookup of the existing result, the scores upsert, the final
  update, the log insert) take effect as written. Console output is not modelled.
\<close>

record env =
  squares_data :: "SquareRow list option"
  squares_error :: "string option"
  upsert_error :: "string option"
  getUserById :: "string \<Rightarrow> auth_user option"
  transport :: "string \<Rightarrow> template \<Rightarrow> bool"
  now :: string
  encodeURIComponent :: "string \<Rightarrow> string"

section \<open>Store operations\<close>

text \<open>\<open>.single()\<close>: the row when the query matches exactly one, otherwise no data.\<close>

definition single_row :: "'a list \<Rightarrow> 'a option" where
  "single_row rows = (case rows of [r] \<Rightarrow> Some r | _ \<Rightarrow> None)"

text \<open>
  \<open>upsert(..., { onConflict })\<close>: a conflicting row is rewritten in place, otherwise a
  fresh row is appended.
\<close>

definition upsert :: "('r \<Rightarrow> bool) \<Rightarrow> ('r \<Rightarrow> 'r) \<Rightarrow> 'r \<Rightarrow> 'r list \<Rightarrow> 'r list" where
  "upsert conflict merge fresh rows =
     (if list_ex conflict rows
      then map (\<lambda>row. if conflict row then merge row else row) rows
      else rows @ [fresh])"

definition for_quarter :: "string \<Rightarrow> string \<Rightarrow> QuarterResultRow \<Rightarrow> bool" where
  "for_quarter cid q row = (contest_id (result row) = cid \<and> quarter (result row) = q)"

definition upsert_quarter_result :: "QuarterResult \<Rightarrow> QuarterResultRow list \<Rightarrow> QuarterResultRow list" where
  "upsert_quarter_result r rows =
     upsert (for_quarter (contest_id r) (quarter r))
       (\<lambda>row. row\<lparr>result := r\<rparr>)
       \<lparr>result = r, winner_email_sent_at = None, owner_email_sent_at = None\<rparr>
       rows"

definition upsert_score :: "ScoreRow \<Rightarrow> ScoreRow list \<Rightarrow> ScoreRow list" where
  "upsert_score r rows =
     upsert (\<lambda>row. s_contest_id row = s_contest_id r \<and> s_quarter row = s_quarter r)
       (\<lambda>row. r) r rows"

definition update_email_status ::
  "string \<Rightarrow> string \<Rightarrow> bool \<Rightarrow> bool \<Rightarrow> string \<Rightarrow> QuarterResultRow list \<Rightarrow> QuarterResultRow list" where
  "update_email_status cid q winnerEmailSent ownerEmailSent t rows =
     map (\<lambda>row.
            if for_quarter cid q row
            then row\<lparr>result := (result row)\<lparr>winner_email_sent := winnerEmailSent,
                                               owner_email_sent := ownerEmailSent\<rparr>,
                     winner_email_sent_at := (if winnerEmailSent then Some t else None),
                     owner_email_sent_at := (if ownerEmailSent then Some t else None)\<rparr>
            else row) rows"

text \<open>The helper \<open>log\<close>: one more entry in the processing log.\<close>

definition log_action :: "string \<Rightarrow> string \<Rightarrow> string \<Rightarrow> string \<Rightarrow> (int \<times> int) option \<Rightarrow> string option \<Rightarrow> world \<Rightarrow> world" where
  "log_action act st cid q sc errorMessage w =
     w\<lparr>processing_log := processing_log w @
          [\<lparr>action = act, status = st, detail_contestId = cid, detail_quarter = q,
            detail_scores = sc, error_message = or_null errorMessage\<rparr>]\<rparr>"

text \<open>
  \<open>sendEmail\<close> never throws: a refused or failed request is the answer \<open>false\<close>.
\<close>

definition sendEmail :: "env \<Rightarrow> string \<Rightarrow> template \<Rightarrow> transport_call list \<Rightarrow> bool \<times> transport_call list" where
  "sendEmail e to tpl calls =
     (let ok = transport e to tpl
      in (ok, calls @ [\<lparr>mail_to = to, mail_template = tpl, accepted = ok\<rparr>]))"

section \<open>processQuarter\<close>

text \<open>The idempotency lookup: \<open>.eq('contest_id', ...).eq('quarter', ...).single()\<close>.\<close>

definition existing_result :: "world \<Rightarrow> string \<Rightarrow> string \<Rightarrow> QuarterResultRow option" where
  "existing_result w cid q = single_row (filter (for_quarter cid q) (quarter_results w))"

text \<open>\<open>existing?.winner_email_sent\<close> and \<open>existing?.owner_email_sent\<close>, as conditions.\<close>

definition existing_winner_sent :: "QuarterResultRow option \<Rightarrow> bool" where
  "existing_winner_sent existing =
     (case existing of None \<Rightarrow> False | Some row \<Rightarrow> winner_email_sent (result row))"

definition existing_owner_sent :: "QuarterResultRow option \<Rightarrow> bool" where
  "existing_owner_sent existing =
     (case existing of None \<Rightarrow> False | Some row \<Rightarrow> owner_email_sent (result row))"

text \<open>\<open>contest.row_numbers?.indexOf(homeLastDigit) ?? -1\<close>, and the same for columns.\<close>

definition winningRowIndex :: "ContestRow \<Rightarrow> int \<Rightarrow> int" where
  "winningRowIndex contest homeLastDigit =
     (case row_numbers contest of None \<Rightarrow> -1 | Some rn \<Rightarrow> indexOf rn homeLastDigit)"

definition winningColIndex :: "ContestRow \<Rightarrow> int \<Rightarrow> int" where
  "winningColIndex contest awayLastDigit =
     (case col_numbers contest of None \<Rightarrow> -1 | Some cn \<Rightarrow> indexOf cn awayLastDigit)"

definition winningSquare :: "ContestRow \<Rightarrow> SquareRow list \<Rightarrow> int \<Rightarrow> int \<Rightarrow> SquareRow option" where
  "winningSquare contest squares homeLastDigit awayLastDigit =
     (let r = winningRowIndex contest homeLastDigit;
          c = winningColIndex contest awayLastDigit
      in if r \<noteq> -1 \<and> c \<noteq> -1
         then find (\<lambda>sq. row_index sq = r \<and> col_index sq = c) squares
         else None)"

text \<open>The record built before the upsert; both sent flags are written as false.\<close>

definition build_result ::
  "ContestRow \<Rightarrow> string \<Rightarrow> int \<Rightarrow> int \<Rightarrow> SquareRow option \<Rightarrow> QuarterResult" where
  "build_result contest q homeScore awayScore ws =
     \<lparr>contest_id = c_id contest,
      quarter = q,
      home_score = homeScore,
      away_score = awayScore,
      home_last_digit = js_rem homeScore 10,
      away_last_digit = js_rem awayScore 10,
      winning_square_id = or_null (map_option sq_id ws),
      winner_first_name = or_null (Option.bind ws claimant_first_name),
      winner_last_name = or_null (Option.bind ws claimant_last_name),
      winner_email = or_null (Option.bind ws claimant_email),
      winner_venmo = or_null (Option.bind ws claimant_venmo),
      prize_amount = Some (getPrizeAmount contest q),
      payout_percent = Some (getPayoutPercent contest q),
      winner_email_sent = False,
      owner_email_sent = False\<rparr>"

text \<open>
  The winner email: sent when the flag read at the start is false and the winning square
  has a claimant address; with no address the obligation counts as met. \<open>the\<close> is
  applied only to an address that \<open>truthy\<close> has checked.
\<close>

definition send_winner_email ::
  "env \<Rightarrow> string \<Rightarrow> ContestRow \<Rightarrow> string \<Rightarrow> int \<Rightarrow> int \<Rightarrow> SquareRow option \<Rightarrow>
   QuarterResultRow option \<Rightarrow> transport_call list \<Rightarrow> bool \<times> transport_call list" where
  "send_winner_email e baseUrl contest q homeScore awayScore ws existing calls =
     (let needWinnerEmail = \<not> existing_winner_sent existing;
          winnerEmailSent = existing_winner_sent existing
      in if needWinnerEmail \<and> truthy (Option.bind ws claimant_email)
         then sendEmail e (the (Option.bind ws claimant_email))
                (WinnerNotificationEmail
                   \<lparr>w_participantName = or_else (Option.bind ws claimant_first_name) ''Winner'',
                    w_contestName = c_name contest,
                    w_quarterName = or_else (QUARTER_DISPLAY q) q,
                    w_homeTeamName = row_team_name contest,
                    w_awayTeamName = col_team_name contest,
                    w_homeScore = homeScore,
                    w_awayScore = awayScore,
                    w_prizeAmount = getPrizeAmount contest q,
                    w_contestUrl = baseUrl @ ''/contest/'' @ encodeURIComponent e (c_slug contest)\<rparr>)
                calls
         else if \<not> truthy (Option.bind ws claimant_email) then (True, calls)
         else (winnerEmailSent, calls))"

text \<open>The owner email: looked up and sent only when the flag read at the start is false.\<close>

definition send_owner_email ::
  "env \<Rightarrow> ContestRow \<Rightarrow> string \<Rightarrow> int \<Rightarrow> int \<Rightarrow> SquareRow option \<Rightarrow>
   QuarterResultRow option \<Rightarrow> transport_call list \<Rightarrow> bool \<times> transport_call list" where
  "send_owner_email e contest q homeScore awayScore ws existing calls =
     (let ownerEmailSent = existing_owner_sent existing;
          needOwnerEmail = \<not> existing_owner_sent existing
      in if needOwnerEmail
         then (let ownerData = getUserById e (owner_id contest);
                   ownerEmail = Option.bind ownerData user_email;
                   ownerName = or_else (Option.bind ownerData user_full_name)
                                 (or_else (Option.bind ownerData user_name) ''Contest Owner'')
               in if truthy ownerEmail
                  then sendEmail e (the ownerEmail)
                         (OwnerQuarterEmail
                            \<lparr>o_ownerName = ownerName,
                             o_contestName = c_name contest,
                             o_quarterName = or_else (QUARTER_DISPLAY q) q,
                             o_homeTeamName = row_team_name contest,
                             o_awayTeamName = col_team_name contest,
                             o_homeScore = homeScore,
                             o_awayScore = awayScore,
                             o_winnerName = buildWinnerName
                                (or_null (Option.bind ws claimant_first_name))
                                (or_null (Option.bind ws claimant_last_name)),
                             o_winnerEmail = or_null (Option.bind ws claimant_email),
                             o_winnerVenmo = or_null (Option.bind ws claimant_venmo),
                             o_prizeAmount = getPrizeAmount contest q\<rparr>)
                         calls
                  else (ownerEmailSent, calls))
         else (ownerEmailSent, calls))"

record pq_return =
  processed :: bool
  error :: "string option"

definition squares_failure :: "env \<Rightarrow> pq_return" where
  "squares_failure e =
     \<lparr>processed = False,
      error = Some (''Failed to fetch squares: '' @
                (case squares_error e of None \<Rightarrow> ''undefined'' | Some m \<Rightarrow> m))\<rparr>"

definition processQuarter ::
  "env \<Rightarrow> string \<Rightarrow> ContestRow \<Rightarrow> string \<Rightarrow> int \<Rightarrow> int \<Rightarrow> world \<Rightarrow> pq_return \<times> world" where
  "processQuarter e baseUrl contest q homeScore awayScore w =
     (let existing = existing_result w (c_id contest) q
      in if existing_winner_sent existing \<and> existing_owner_sent existing
         then (\<lparr>processed = False, error = None\<rparr>, w)
         else
           (case squares_data e of
              None \<Rightarrow> (squares_failure e, w)
            | Some squares \<Rightarrow>
                if squares_error e \<noteq> None then (squares_failure e, w)
                else
                  (let ws = winningSquare contest squares (js_rem homeScore 10) (js_rem awayScore 10);
                       r = build_result contest q homeScore awayScore ws
                   in case upsert_error e of
                        Some m \<Rightarrow>
                          (\<lparr>processed = False, error = Some (''Failed to upsert result: '' @ m)\<rparr>, w)
                      | None \<Rightarrow>
                          (let w1 = w\<lparr>quarter_results := upsert_quarter_result r (quarter_results w)\<rparr>;
                               w2 = w1\<lparr>scores := upsert_score
                                      \<lparr>s_contest_id = c_id contest, s_quarter = q,
                                       s_home_score = homeScore, s_away_score = awayScore,
                                       s_winning_square_id = or_null (map_option sq_id ws),
                                       entered_at = now e\<rparr> (scores w1)\<rparr>;
                               (winnerEmailSent, calls1) =
                                  send_winner_email e baseUrl contest q homeScore awayScore ws
                                    existing (outbox w2);
                               (ownerEmailSent, calls2) =
                                  send_owner_email e contest q homeScore awayScore ws existing calls1;
                               w3 = w2\<lparr>outbox := calls2,
                                       quarter_results := update_email_status (c_id contest) q
                                          winnerEmailSent ownerEmailSent (now e) (quarter_results w2)\<rparr>
                           in (\<lparr>processed = True, error = None\<rparr>, w3)))))"

text \<open>
  The states of the results table that one call stores, in the order of its writes: the
  table after the upsert of the built record, then the table after the final update of
  the email status. A call that returns before the upsert writes nothing.
\<close>

definition processQuarter_writes ::
  "env \<Rightarrow> string \<Rightarrow> ContestRow \<Rightarrow> string \<Rightarrow> int \<Rightarrow> int \<Rightarrow> world \<Rightarrow> QuarterResultRow list list" where
  "processQuarter_writes e baseUrl contest q homeScore awayScore w =
     (let existing = existing_result w (c_id contest) q
      in if existing_winner_sent existing \<and> existing_owner_sent existing
         then []
         else
           (case squares_data e of
              None \<Rightarrow> []
            | Some squares \<Rightarrow>
                if squares_error e \<noteq> None then []
                else
                  (let ws = winningSquare contest squares (js_rem homeScore 10) (js_rem awayScore 10);
                       r = build_result contest q homeScore awayScore ws
                   in case upsert_error e of
                        Some m \<Rightarrow> []
                      | None \<Rightarrow>
                          (let upserted = upsert_quarter_result r (quarter_results w);
                               (winnerEmailSent, calls1) =
                                  send_winner_email e baseUrl contest q homeScore awayScore ws
                                    existing (outbox w);
                               (ownerEmailSent, calls2) =
                                  send_owner_email e contest q homeScore awayScore ws existing calls1
                           in [upserted,
                               update_email_status (c_id contest) q
                                 winnerEmailSent ownerEmailSent (now e) upserted]))))"

section \<open>The run handler: which quarters, which contests\<close>

text \<open>
  The loop \<open>for (let p = 1; p <= Math.min(period, 4); p++)\<close>, pushing the quarter of
  each period that has one.
\<close>

function period_loop :: "int \<Rightarrow> int \<Rightarrow> string list \<Rightarrow> string list" where
  "period_loop p period acc =
     (if p \<le> min period 4
      then period_loop (p + 1) period
             (case PERIOD_TO_QUARTER p of None \<Rightarrow> acc | Some q \<Rightarrow> acc @ [q])
      else acc)"
  by pat_completeness auto
termination
  by (relation "measure (\<lambda>(p, period, acc). nat (min period 4 + 1 - p))") auto

declare period_loop.simps [simp del]

text \<open>
  The quarter resolution of the handler. \<open>None\<close> is the early return with status
  \<open>in_progress\<close>: the handler answers at once, with nothing pushed and nothing processed.
  The period is \<open>espn.period || 0\<close>, an integer.
\<close>

definition quartersToProcess :: "string option \<Rightarrow> string \<Rightarrow> bool \<Rightarrow> int \<Rightarrow> string list option" where
  "quartersToProcess manualQuarter statusName completed period =
     (if truthy manualQuarter then Some [the manualQuarter]
      else if statusName = ''STATUS_FINAL'' \<or> completed
      then Some [''q1'', ''q2'', ''q3'', ''final'']
      else if statusName = ''STATUS_END_PERIOD'' \<or> statusName = ''STATUS_HALFTIME''
      then Some (period_loop 1 period [])
      else None)"

record result_entry =
  r_contestId :: string
  r_quarter :: string
  r_processed :: bool
  r_error :: "string option"

text \<open>
  The inner loop over the quarters of one contest. The answers of the outside may differ
  from call to call: \<open>envs\<close> gives them per contest id and quarter.
\<close>

fun quarter_loop ::
  "(string \<Rightarrow> string \<Rightarrow> env) \<Rightarrow> string \<Rightarrow> ContestRow \<Rightarrow> int \<Rightarrow> int \<Rightarrow> string list \<Rightarrow>
   result_entry list \<times> world \<Rightarrow> result_entry list \<times> world" where
  "quarter_loop envs baseUrl contest homeScore awayScore [] st = st"
| "quarter_loop envs baseUrl contest homeScore awayScore (q # qs) (results, w) =
     (let (res, w1) = processQuarter (envs (c_id contest) q) baseUrl contest q homeScore awayScore w;
          results1 = results @
             [\<lparr>r_contestId = c_id contest, r_quarter = q,
               r_processed = processed res, r_error = error res\<rparr>];
          w2 = (if truthy (error res)
                then log_action ''process_quarter'' ''error'' (c_id contest) q None (error res) w1
                else if processed res
                then log_action ''process_quarter'' ''success'' (c_id contest) q
                       (Some (homeScore, awayScore)) None w1
                else w1)
      in quarter_loop envs baseUrl contest homeScore awayScore qs (results1, w2))"

text \<open>The outer loop: a contest without assigned numbers is skipped.\<close>

fun contest_loop ::
  "(string \<Rightarrow> string \<Rightarrow> env) \<Rightarrow> string \<Rightarrow> string list \<Rightarrow> int \<Rightarrow> int \<Rightarrow> ContestRow list \<Rightarrow>
   result_entry list \<times> world \<Rightarrow> result_entry list \<times> world" where
  "contest_loop envs baseUrl qs homeScore awayScore [] st = st"
| "contest_loop envs baseUrl qs homeScore awayScore (contest # contests) st =
     (if row_numbers contest = None \<or> col_numbers contest = None
      then contest_loop envs baseUrl qs homeScore awayScore contests st
      else contest_loop envs baseUrl qs homeScore awayScore contests
             (quarter_loop envs baseUrl contest homeScore awayScore qs st))"

text \<open>
  The handler from the quarter resolution to the end of the per-quarter loop. The
  preamble before it and the game-completion step after it are not modelled.
\<close>

datatype outcome =
    InProgress
  | NothingToProcess
  | FetchContestsFailed
  | NoContests
  | Processed "string list" nat "result_entry list"

definition serve_quarters ::
  "(string \<Rightarrow> string \<Rightarrow> env) \<Rightarrow> string \<Rightarrow> string option \<Rightarrow> string \<Rightarrow> bool \<Rightarrow> int \<Rightarrow>
   int \<Rightarrow> int \<Rightarrow> ContestRow list option \<Rightarrow> string option \<Rightarrow> world \<Rightarrow> outcome \<times> world" where
  "serve_quarters envs baseUrl manualQuarter statusName completed period homeScore awayScore
     contests contestsError w =
     (case quartersToProcess manualQuarter statusName completed period of
        None \<Rightarrow> (InProgress, w)
      | Some qs \<Rightarrow>
          if qs = [] then (NothingToProcess, w)
          else (case contestsError of
                  Some m \<Rightarrow>
                    (FetchContestsFailed,
                     log_action ''fetch_contests'' ''error'' [] [] None (Some m) w)
                | None \<Rightarrow>
                    (case contests of
                       None \<Rightarrow>
                         (NoContests, log_action ''fetch_contests'' ''skipped'' [] [] None None w)
                     | Some cs \<Rightarrow>
                         if cs = []
                         then (NoContests,
                               log_action ''fetch_contests'' ''skipped'' [] [] None None w)
                         else (let (results, w1) =
                                     contest_loop envs baseUrl qs homeScore awayScore cs ([], w)
                               in (Processed qs (length cs) results, w1)))))"

section \<open>saveScores: the manual score entry\<close>

record ScoreInput =
  si_quarter :: string
  si_homeScore :: int
  si_awayScore :: int

record WinnerInfo =
  wi_quarter :: string
  wi_homeScore :: int
  wi_awayScore :: int
  winningSquareId :: "string option"
  winnerName :: "string option"
  winnerEmail :: "string option"

text \<open>
  What the outside answers during \<open>saveScores\<close>: the signed-in user's id, the contest
  row, the squares query, the error of each score upsert (by quarter), the clock.
\<close>

record save_env =
  sv_user :: "string option"
  sv_contest :: "ContestRow option"
  sv_squares_data :: "SquareRow list option"
  sv_squares_error :: "string option"
  sv_upsert_error :: "string \<Rightarrow> string option"
  sv_now :: string

text \<open>
  The winner selection in the loop of \<open>saveScores\<close>; it runs after the guard on the
  number assignments, so both are arrays. \<open>squares?.find\<close> tolerates missing data.
\<close>

definition save_winningRowIndex :: "int list \<Rightarrow> ScoreInput \<Rightarrow> int" where
  "save_winningRowIndex rn score = indexOf rn (js_rem (si_homeScore score) 10)"

definition save_winningColIndex :: "int list \<Rightarrow> ScoreInput \<Rightarrow> int" where
  "save_winningColIndex cn score = indexOf cn (js_rem (si_awayScore score) 10)"

definition save_winningSquare ::
  "int list \<Rightarrow> int list \<Rightarrow> SquareRow list option \<Rightarrow> ScoreInput \<Rightarrow> SquareRow option" where
  "save_winningSquare rn cn squares score =
     (let winningRowIndex = save_winningRowIndex rn score;
          winningColIndex = save_winningColIndex cn score
      in if winningRowIndex \<noteq> -1 \<and> winningColIndex \<noteq> -1
         then (case squares of
                 None \<Rightarrow> None
               | Some sqs \<Rightarrow>
                   find (\<lambda>sq. row_index sq = winningRowIndex \<and> col_index sq = winningColIndex) sqs)
         else None)"

definition save_winnerName :: "SquareRow option \<Rightarrow> string option" where
  "save_winnerName ws =
     (if truthy (Option.bind ws claimant_first_name)
      then (if truthy (Option.bind ws claimant_last_name)
            then Some (the (Option.bind ws claimant_first_name) @ '' '' @
                       the (Option.bind ws claimant_last_name))
            else Option.bind ws claimant_first_name)
      else None)"

fun save_loop ::
  "save_env \<Rightarrow> string \<Rightarrow> int list \<Rightarrow> int list \<Rightarrow> ScoreInput list \<Rightarrow> WinnerInfo list \<Rightarrow>
   ScoreRow list \<Rightarrow> (string + WinnerInfo list) \<times> ScoreRow list" where
  "save_loop e contestId rn cn [] winners tbl = (Inr winners, tbl)"
| "save_loop e contestId rn cn (score # rest) winners tbl =
     (let ws = save_winningSquare rn cn (sv_squares_data e) score;
          winningSquareId = or_null (map_option sq_id ws)
      in case sv_upsert_error e (si_quarter score) of
           Some m \<Rightarrow>
             (Inl (''Failed to save score for '' @ si_quarter score @ '': '' @ m), tbl)
         | None \<Rightarrow>
             save_loop e contestId rn cn rest
               (winners @
                  [\<lparr>wi_quarter = si_quarter score,
                    wi_homeScore = si_homeScore score,
                    wi_awayScore = si_awayScore score,
                    winningSquareId = winningSquareId,
                    winnerName = save_winnerName ws,
                    winnerEmail = or_null (Option.bind ws claimant_email)\<rparr>])
               (upsert_score
                  \<lparr>s_contest_id = contestId, s_quarter = si_quarter score,
                   s_home_score = si_homeScore score, s_away_score = si_awayScore score,
                   s_winning_square_id = winningSquareId, entered_at = sv_now e\<rparr> tbl))"

definition saveScores ::
  "save_env \<Rightarrow> string \<Rightarrow> ScoreInput list \<Rightarrow> ScoreRow list \<Rightarrow>
   (string + WinnerInfo list) \<times> ScoreRow list" where
  "saveScores e contestId scoreInputs tbl =
     (case sv_user e of
        None \<Rightarrow> (Inl ''You must be logged in'', tbl)
      | Some uid \<Rightarrow>
          (case sv_contest e of
             None \<Rightarrow> (Inl ''Contest not found'', tbl)
           | Some contest \<Rightarrow>
               if owner_id contest \<noteq> uid then (Inl ''You do not own this contest'', tbl)
               else if c_status contest \<noteq> ''in_progress''
               then (Inl ''Scores can only be entered when the contest is in progress'', tbl)
               else (case (row_numbers contest, col_numbers contest) of
                       (Some rn, Some cn) \<Rightarrow>
                         (case sv_squares_error e of
                            Some m \<Rightarrow> (Inl (''Failed to fetch squares: '' @ m), tbl)
                          | None \<Rightarrow> save_loop e contestId rn cn scoreInputs [] tbl)
                     | _ \<Rightarrow>
                         (Inl ''Grid numbers must be assigned before entering scores'', tbl))))"

section \<open>Observations used in the statements\<close>

text \<open>The stored results of one (contest, quarter) pair.\<close>

definition rows_for :: "string \<Rightarrow> string \<Rightarrow> world \<Rightarrow> QuarterResultRow list" where
  "rows_for cid q w = filter (for_quarter cid q) (quarter_results w)"

definition is_winner_mail :: "transport_call \<Rightarrow> bool" where
  "is_winner_mail c =
     (case mail_template c of WinnerNotificationEmail _ \<Rightarrow> True | OwnerQuarterEmail _ \<Rightarrow> False)"

definition is_owner_mail :: "transport_call \<Rightarrow> bool" where
  "is_owner_mail c =
     (case mail_template c of WinnerNotificationEmail _ \<Rightarrow> False | OwnerQuarterEmail _ \<Rightarrow> True)"

text \<open>An email counts as sent when the transport accepted it.\<close>

definition winner_mails_sent :: "world \<Rightarrow> nat" where
  "winner_mails_sent w = length (filter (\<lambda>c. is_winner_mail c \<and> accepted c) (outbox w))"

definition owner_mails_sent :: "world \<Rightarrow> nat" where
  "owner_mails_sent w = length (filter (\<lambda>c. is_owner_mail c \<and> accepted c) (outbox w))"

text \<open>The negation of the skip test \<open>!contest.row_numbers || !contest.col_numbers\<close>.\<close>

definition has_numbers :: "ContestRow \<Rightarrow> bool" where
  "has_numbers contest = (row_numbers contest \<noteq> None \<and> col_numbers contest \<noteq> None)"

section \<open>A concrete contest\<close>

text \<open>
  One contest with the number assignment of the digit-matching example, two squares of
  its first row (one claimed, one not), and worlds before and after a first run.
\<close>

definition demo_contest :: ContestRow where
  "demo_contest =
     \<lparr>c_id = ''c1'', c_name = ''Office pool'', c_slug = ''office-pool'', owner_id = ''u1'',
      row_team_name = ''Chiefs'', col_team_name = ''Eagles'',
      row_numbers = Some [7, 3, 0, 1, 2, 4, 5, 6, 8, 9],
      col_numbers = Some [3, 7, 0, 1, 2, 4, 5, 6, 8, 9],
      square_price = 10,
      payout_q1_percent = Some 25, payout_q2_percent = None,
      payout_q3_percent = Some 25, payout_final_percent = Some 25,
      c_status = ''in_progress''\<rparr>"

definition demo_pending :: ContestRow where
  "demo_pending = demo_contest\<lparr>c_id := ''c2'', row_numbers := None, col_numbers := None\<rparr>"

definition demo_squares :: "SquareRow list" where
  "demo_squares =
     [\<lparr>sq_id = ''s00'', row_index = 0, col_index = 0,
       claimant_first_name = Some ''Ann'', claimant_last_name = Some ''Lee'',
       claimant_email = Some ''ann@example.com'', claimant_venmo = None\<rparr>,
      \<lparr>sq_id = ''s01'', row_index = 0, col_index = 1,
       claimant_first_name = None, claimant_last_name = None,
       claimant_email = None, claimant_venmo = None\<rparr>]"

definition demo_env :: env where
  "demo_env =
     \<lparr>squares_data = Some demo_squares, squares_error = None, upsert_error = None,
      getUserById = (\<lambda>uid. if uid = ''u1''
                           then Some \<lparr>user_email = Some ''owner@example.com'',
                                      user_full_name = Some ''Pat Owner'', user_name = None\<rparr>
                           else None),
      transport = (\<lambda>to tpl. True),
      now = ''2026-02-08T23:55:00Z'',
      encodeURIComponent = (\<lambda>s. s)\<rparr>"

definition demo_envs :: "string \<Rightarrow> string \<Rightarrow> env" where
  "demo_envs cid q = demo_env"

definition demo_row :: "bool \<Rightarrow> bool \<Rightarrow> QuarterResultRow" where
  "demo_row winnerSent ownerSent =
     \<lparr>result = (build_result demo_contest ''q1'' 47 23 (Some (hd demo_squares)))
                  \<lparr>winner_email_sent := winnerSent, owner_email_sent := ownerSent\<rparr>,
      winner_email_sent_at = (if winnerSent then Some ''2026-02-08T23:50:00Z'' else None),
      owner_email_sent_at = (if ownerSent then Some ''2026-02-08T23:50:00Z'' else None)\<rparr>"

definition demo_empty :: world where
  "demo_empty = \<lparr>quarter_results = [], scores = [], outbox = [], processing_log = []\<rparr>"

definition demo_world :: "bool \<Rightarrow> bool \<Rightarrow> world" where
  "demo_world winnerSent ownerSent = demo_empty\<lparr>quarter_results := [demo_row winnerSent ownerSent]\<rparr>"

definition demo_save_env :: save_env where
  "demo_save_env =
     \<lparr>sv_user = Some ''u1'', sv_contest = Some demo_contest,
      sv_squares_data = Some demo_squares, sv_squares_error = None,
      sv_upsert_error = (\<lambda>q. None), sv_now = ''2026-02-08T23:55:00Z''\<rparr>"

section \<open>Properties\<close>

subsection \<open>Remainder and indexOf\<close>

lemma js_rem_nonneg: "0 \<le> a \<Longrightarrow> js_rem a 10 = a mod 10"
  by (simp add: js_rem_def sgn_if)

text \<open>
  For a negative dividend the remainder is not the digit \<open>mod\<close> gives: it is zero
  or negative, so it is found in no assignment of the digits 0 to 9.
\<close>

lemma js_rem_negative: "a < 0 \<Longrightarrow> js_rem a 10 = - ((- a) mod 10)"
  by (simp add: js_rem_def sgn_if)

lemma indexOf_from_closed:
  "indexOf_from xs v i =
     (if v \<in> set xs then i + int (length (takeWhile (\<lambda>x. x \<noteq> v) xs)) else -1)"
  by (induction xs arbitrary: i) auto

lemma indexOf_closed:
  "indexOf xs v = (if v \<in> set xs then int (length (takeWhile (\<lambda>x. x \<noteq> v) xs)) else -1)"
  by (simp add: indexOf_def indexOf_from_closed)

lemma indexOf_missing: "indexOf xs v = -1 \<longleftrightarrow> v \<notin> set xs"
  by (simp add: indexOf_closed)

lemma indexOf_position:
  assumes "v \<in> set xs"
  shows "0 \<le> indexOf xs v" and "indexOf xs v < int (length xs)"
    and "xs ! nat (indexOf xs v) = v" and "\<forall>j < nat (indexOf xs v). xs ! j \<noteq> v"
proof -
  let ?n = "length (takeWhile (\<lambda>x. x \<noteq> v) xs)"
  have idx: "indexOf xs v = int ?n" using assms by (simp add: indexOf_closed)
  have lt: "?n < length xs"
  proof (rule ccontr)
    assume "\<not> ?n < length xs"
    with length_takeWhile_le [of "\<lambda>x. x \<noteq> v" xs] have "?n = length xs" by simp
    then have "takeWhile (\<lambda>x. x \<noteq> v) xs = xs"
      by (metis takeWhile_eq_take take_all order_refl)
    then have "\<forall>x \<in> set xs. x \<noteq> v" by simp
    with assms show False by blast
  qed
  show "0 \<le> indexOf xs v" by (simp add: idx)
  show "indexOf xs v < int (length xs)" using lt by (simp add: idx)
  show "xs ! nat (indexOf xs v) = v"
    using nth_length_takeWhile [OF lt] by (simp add: idx)
  show "\<forall>j < nat (indexOf xs v). xs ! j \<noteq> v"
  proof (intro allI impI)
    fix j assume "j < nat (indexOf xs v)"
    then have j: "j < ?n" by (simp add: idx)
    then have "takeWhile (\<lambda>x. x \<noteq> v) xs ! j \<in> set (takeWhile (\<lambda>x. x \<noteq> v) xs)"
      by (rule nth_mem)
    then have "takeWhile (\<lambda>x. x \<noteq> v) xs ! j \<noteq> v" by (blast dest: set_takeWhileD)
    then show "xs ! j \<noteq> v" using takeWhile_nth [OF j] by simp
  qed
qed

subsection \<open>Store operations on the rows of one pair\<close>

lemma filter_map_if_same:
  "(\<And>x. P x \<Longrightarrow> P (f x)) \<Longrightarrow>
   filter P (map (\<lambda>x. if P x then f x else x) xs) = map f (filter P xs)"
  by (induction xs) auto

lemma filter_map_if_other:
  "(\<And>x. P x \<Longrightarrow> \<not> Q x \<and> \<not> Q (f x)) \<Longrightarrow>
   filter Q (map (\<lambda>x. if P x then f x else x) xs) = filter Q xs"
  by (induction xs) auto

lemma list_ex_filter: "list_ex P xs \<longleftrightarrow> filter P xs \<noteq> []"
  by (induction xs) auto

lemma rows_upsert_same:
  "filter (for_quarter (contest_id r) (quarter r)) (upsert_quarter_result r rows) =
     (if filter (for_quarter (contest_id r) (quarter r)) rows = []
      then [\<lparr>result = r, winner_email_sent_at = None, owner_email_sent_at = None\<rparr>]
      else map (\<lambda>row. row\<lparr>result := r\<rparr>) (filter (for_quarter (contest_id r) (quarter r)) rows))"
proof -
  have "filter (for_quarter (contest_id r) (quarter r))
          (map (\<lambda>row. if for_quarter (contest_id r) (quarter r) row then row\<lparr>result := r\<rparr> else row) rows) =
        map (\<lambda>row. row\<lparr>result := r\<rparr>) (filter (for_quarter (contest_id r) (quarter r)) rows)"
    by (rule filter_map_if_same) (simp add: for_quarter_def)
  then show ?thesis
    by (simp add: upsert_quarter_result_def upsert_def list_ex_filter) (simp add: for_quarter_def)
qed

lemma rows_upsert_other:
  "(cid, q) \<noteq> (contest_id r, quarter r) \<Longrightarrow>
   filter (for_quarter cid q) (upsert_quarter_result r rows) = filter (for_quarter cid q) rows"
  by (auto simp add: upsert_quarter_result_def upsert_def list_ex_filter for_quarter_def
      intro!: filter_map_if_other)

lemma rows_update_same:
  "filter (for_quarter cid q) (update_email_status cid q we oe t rows) =
     map (\<lambda>row. row\<lparr>result := (result row)\<lparr>winner_email_sent := we, owner_email_sent := oe\<rparr>,
                    winner_email_sent_at := (if we then Some t else None),
                    owner_email_sent_at := (if oe then Some t else None)\<rparr>)
       (filter (for_quarter cid q) rows)"
  unfolding update_email_status_def
  by (rule filter_map_if_same) (simp add: for_quarter_def)

lemma rows_update_other:
  "(cid', q') \<noteq> (cid, q) \<Longrightarrow>
   filter (for_quarter cid' q') (update_email_status cid q we oe t rows) =
     filter (for_quarter cid' q') rows"
  unfolding update_email_status_def
  by (rule filter_map_if_other) (auto simp add: for_quarter_def)

lemma build_result_key [simp]:
  "contest_id (build_result contest q h a ws) = c_id contest"
  "quarter (build_result contest q h a ws) = q"
  by (simp_all add: build_result_def)

subsection \<open>processQuarter by return path\<close>

lemma processQuarter_done:
  assumes "existing_winner_sent (existing_result w (c_id contest) q)"
    and "existing_owner_sent (existing_result w (c_id contest) q)"
  shows "processQuarter e b contest q h a w = (\<lparr>processed = False, error = None\<rparr>, w)"
  using assms by (simp add: processQuarter_def)

lemma processQuarter_processed_iff:
  "processed (fst (processQuarter e b contest q h a w)) \<longleftrightarrow>
     \<not> (existing_winner_sent (existing_result w (c_id contest) q) \<and>
        existing_owner_sent (existing_result w (c_id contest) q)) \<and>
     squares_data e \<noteq> None \<and> squares_error e = None \<and> upsert_error e = None"
  by (auto simp add: processQuarter_def Let_def squares_failure_def split_beta
      split: option.splits)

lemma processQuarter_unprocessed:
  "\<not> processed (fst (processQuarter e b contest q h a w)) \<Longrightarrow>
   snd (processQuarter e b contest q h a w) = w"
  by (auto simp add: processQuarter_def Let_def squares_failure_def split_beta
      split: option.splits if_splits)

lemma processQuarter_processed:
  assumes "processed (fst (processQuarter e b contest q h a w))"
  obtains squares where "squares_data e = Some squares"
    and "quarter_results (snd (processQuarter e b contest q h a w)) =
           update_email_status (c_id contest) q
             (fst (send_winner_email e b contest q h a
                     (winningSquare contest squares (js_rem h 10) (js_rem a 10))
                     (existing_result w (c_id contest) q) (outbox w)))
             (fst (send_owner_email e contest q h a
                     (winningSquare contest squares (js_rem h 10) (js_rem a 10))
                     (existing_result w (c_id contest) q)
                     (snd (send_winner_email e b contest q h a
                        (winningSquare contest squares (js_rem h 10) (js_rem a 10))
                        (existing_result w (c_id contest) q) (outbox w)))))
             (now e)
             (upsert_quarter_result
                (build_result contest q h a
                   (winningSquare contest squares (js_rem h 10) (js_rem a 10)))
                (quarter_results w))"
    and "outbox (snd (processQuarter e b contest q h a w)) =
           snd (send_owner_email e contest q h a
                     (winningSquare contest squares (js_rem h 10) (js_rem a 10))
                     (existing_result w (c_id contest) q)
                     (snd (send_winner_email e b contest q h a
                        (winningSquare contest squares (js_rem h 10) (js_rem a 10))
                        (existing_result w (c_id contest) q) (outbox w))))"
    and "scores (snd (processQuarter e b contest q h a w)) =
           upsert_score
             \<lparr>s_contest_id = c_id contest, s_quarter = q, s_home_score = h, s_away_score = a,
              s_winning_square_id = or_null (map_option sq_id
                 (winningSquare contest squares (js_rem h 10) (js_rem a 10))),
              entered_at = now e\<rparr> (scores w)"
    and "processing_log (snd (processQuarter e b contest q h a w)) = processing_log w"
proof -
  from assms obtain squares where sq: "squares_data e = Some squares"
    and ok: "squares_error e = None" "upsert_error e = None"
    and nd: "\<not> (existing_winner_sent (existing_result w (c_id contest) q) \<and>
        existing_owner_sent (existing_result w (c_id contest) q))"
    by (auto simp add: processQuarter_processed_iff)
  show thesis
    by (rule that [OF sq]) (use sq ok nd in \<open>auto simp add: processQuarter_def Let_def split_beta\<close>)
qed

subsection \<open>The two email steps\<close>

lemma send_winner_email_cases:
  "send_winner_email e b contest q h a ws ex calls = (True, calls) \<and>
     (existing_winner_sent ex \<or> \<not> truthy (Option.bind ws claimant_email))
   \<or> (\<exists>c. send_winner_email e b contest q h a ws ex calls = (accepted c, calls @ [c]) \<and>
          is_winner_mail c \<and> \<not> existing_winner_sent ex \<and>
          truthy (Option.bind ws claimant_email) \<and>
          mail_to c = the (Option.bind ws claimant_email))"
  by (auto simp add: send_winner_email_def sendEmail_def Let_def is_winner_mail_def)

lemma send_owner_email_cases:
  "send_owner_email e contest q h a ws ex calls = (existing_owner_sent ex, calls) \<and>
     (existing_owner_sent ex \<or> \<not> truthy (Option.bind (getUserById e (owner_id contest)) user_email))
   \<or> (\<exists>c. send_owner_email e contest q h a ws ex calls = (accepted c, calls @ [c]) \<and>
          is_owner_mail c \<and> \<not> existing_owner_sent ex \<and>
          truthy (Option.bind (getUserById e (owner_id contest)) user_email) \<and>
          mail_to c = the (Option.bind (getUserById e (owner_id contest)) user_email))"
  by (auto simp add: send_owner_email_def sendEmail_def Let_def is_owner_mail_def)

lemma send_winner_email_keeps:
  "existing_winner_sent ex \<Longrightarrow> send_winner_email e b contest q h a ws ex calls = (True, calls)"
  using send_winner_email_cases [of e b contest q h a ws ex calls] by auto

lemma send_owner_email_keeps:
  "existing_owner_sent ex \<Longrightarrow> send_owner_email e contest q h a ws ex calls = (True, calls)"
  using send_owner_email_cases [of e contest q h a ws ex calls] by auto


lemma is_mail_excl: "is_winner_mail c \<longleftrightarrow> \<not> is_owner_mail c"
  by (simp add: is_winner_mail_def is_owner_mail_def split: template.splits)

lemma processQuarter_rows:
  assumes "processed (fst (processQuarter e b contest q h a w))"
  obtains squares where "squares_data e = Some squares"
    and "length (rows_for (c_id contest) q (snd (processQuarter e b contest q h a w))) =
           max 1 (length (rows_for (c_id contest) q w))"
    and "\<forall>row \<in> set (rows_for (c_id contest) q (snd (processQuarter e b contest q h a w))).
           result row =
             (build_result contest q h a (winningSquare contest squares (js_rem h 10) (js_rem a 10)))
               \<lparr>winner_email_sent :=
                  fst (send_winner_email e b contest q h a
                     (winningSquare contest squares (js_rem h 10) (js_rem a 10))
                     (existing_result w (c_id contest) q) (outbox w)),
                owner_email_sent :=
                  fst (send_owner_email e contest q h a
                     (winningSquare contest squares (js_rem h 10) (js_rem a 10))
                     (existing_result w (c_id contest) q)
                     (snd (send_winner_email e b contest q h a
                        (winningSquare contest squares (js_rem h 10) (js_rem a 10))
                        (existing_result w (c_id contest) q) (outbox w))))\<rparr>"
proof -
  from assms obtain squares where sq: "squares_data e = Some squares"
    and qr: "quarter_results (snd (processQuarter e b contest q h a w)) =
           update_email_status (c_id contest) q
             (fst (send_winner_email e b contest q h a
                     (winningSquare contest squares (js_rem h 10) (js_rem a 10))
                     (existing_result w (c_id contest) q) (outbox w)))
             (fst (send_owner_email e contest q h a
                     (winningSquare contest squares (js_rem h 10) (js_rem a 10))
                     (existing_result w (c_id contest) q)
                     (snd (send_winner_email e b contest q h a
                        (winningSquare contest squares (js_rem h 10) (js_rem a 10))
                        (existing_result w (c_id contest) q) (outbox w)))))
             (now e)
             (upsert_quarter_result
                (build_result contest q h a
                   (winningSquare contest squares (js_rem h 10) (js_rem a 10)))
                (quarter_results w))"
    by (rule processQuarter_processed)
  let ?r = "build_result contest q h a (winningSquare contest squares (js_rem h 10) (js_rem a 10))"
  have up: "filter (for_quarter (c_id contest) q) (upsert_quarter_result ?r (quarter_results w)) =
     (if filter (for_quarter (c_id contest) q) (quarter_results w) = []
      then [\<lparr>result = ?r, winner_email_sent_at = None, owner_email_sent_at = None\<rparr>]
      else map (\<lambda>row. row\<lparr>result := ?r\<rparr>) (filter (for_quarter (c_id contest) q) (quarter_results w)))"
    using rows_upsert_same [of ?r "quarter_results w"] by simp
  show thesis
  proof (rule that [OF sq])
    show "length (rows_for (c_id contest) q (snd (processQuarter e b contest q h a w))) =
           max 1 (length (rows_for (c_id contest) q w))"
      unfolding rows_for_def qr rows_update_same up
      by (cases "filter (for_quarter (c_id contest) q) (quarter_results w)") simp_all
  next
    show "\<forall>row \<in> set (rows_for (c_id contest) q (snd (processQuarter e b contest q h a w))).
           result row = ?r
               \<lparr>winner_email_sent :=
                  fst (send_winner_email e b contest q h a
                     (winningSquare contest squares (js_rem h 10) (js_rem a 10))
                     (existing_result w (c_id contest) q) (outbox w)),
                owner_email_sent :=
                  fst (send_owner_email e contest q h a
                     (winningSquare contest squares (js_rem h 10) (js_rem a 10))
                     (existing_result w (c_id contest) q)
                     (snd (send_winner_email e b contest q h a
                        (winningSquare contest squares (js_rem h 10) (js_rem a 10))
                        (existing_result w (c_id contest) q) (outbox w))))\<rparr>"
      unfolding rows_for_def qr rows_update_same up
      by (cases "filter (for_quarter (c_id contest) q) (quarter_results w)") auto
  qed
qed

lemma existing_of_rows:
  "existing_result w cid q = single_row (rows_for cid q w)"
  by (simp add: existing_result_def rows_for_def)

lemma single_row_one: "length rows = 1 \<Longrightarrow> single_row rows = Some (hd rows)"
  by (cases rows) (auto simp add: single_row_def split: list.splits)

lemma single_row_Some: "single_row rows = Some r \<longleftrightarrow> rows = [r]"
  by (auto simp add: single_row_def split: list.splits)

lemma processQuarter_outbox:
  obtains "outbox (snd (processQuarter e b contest q h a w)) = outbox w"
  | squares where "processed (fst (processQuarter e b contest q h a w))"
      "squares_data e = Some squares"
      "outbox (snd (processQuarter e b contest q h a w)) =
           snd (send_owner_email e contest q h a
                     (winningSquare contest squares (js_rem h 10) (js_rem a 10))
                     (existing_result w (c_id contest) q)
                     (snd (send_winner_email e b contest q h a
                        (winningSquare contest squares (js_rem h 10) (js_rem a 10))
                        (existing_result w (c_id contest) q) (outbox w))))"
proof (cases "processed (fst (processQuarter e b contest q h a w))")
  case True
  then show ?thesis
    by (rule processQuarter_processed) (rule that(2) [OF True])
next
  case False
  then show ?thesis by (simp add: processQuarter_unprocessed that(1))
qed

lemma rows_flags_existing:
  assumes "length (rows_for cid q w) = 1"
    and "\<forall>row \<in> set (rows_for cid q w). result row = r"
  shows "existing_winner_sent (existing_result w cid q) = winner_email_sent r"
    and "existing_owner_sent (existing_result w cid q) = owner_email_sent r"
proof -
  from assms(1) obtain row where rows: "rows_for cid q w = [row]"
    by (cases "rows_for cid q w") auto
  with assms(2) have "result row = r" by simp
  with rows show "existing_winner_sent (existing_result w cid q) = winner_email_sent r"
    and "existing_owner_sent (existing_result w cid q) = owner_email_sent r"
    by (simp_all add: existing_of_rows single_row_def existing_winner_sent_def existing_owner_sent_def)
qed

lemma winner_mails_call:
  assumes uniq: "length (rows_for (c_id contest) q w) \<le> 1"
  shows "winner_mails_sent (snd (processQuarter e b contest q h a w)) \<le> winner_mails_sent w + 1"
    and "existing_winner_sent (existing_result w (c_id contest) q) \<Longrightarrow>
         winner_mails_sent (snd (processQuarter e b contest q h a w)) = winner_mails_sent w"
    and "winner_mails_sent (snd (processQuarter e b contest q h a w)) \<noteq> winner_mails_sent w \<Longrightarrow>
         existing_winner_sent
           (existing_result (snd (processQuarter e b contest q h a w)) (c_id contest) q)"
proof -
  let ?w' = "snd (processQuarter e b contest q h a w)"
  let ?ex = "existing_result w (c_id contest) q"
  have "winner_mails_sent ?w' \<le> winner_mails_sent w + 1 \<and>
        (existing_winner_sent ?ex \<longrightarrow> winner_mails_sent ?w' = winner_mails_sent w) \<and>
        (winner_mails_sent ?w' \<noteq> winner_mails_sent w \<longrightarrow>
           existing_winner_sent (existing_result ?w' (c_id contest) q))"
  proof (cases rule: processQuarter_outbox [of e b contest q h a w])
    case 1
    then show ?thesis by (simp add: winner_mails_sent_def)
  next
    case (2 squares)
    let ?ws = "winningSquare contest squares (js_rem h 10) (js_rem a 10)"
    let ?sw = "send_winner_email e b contest q h a ?ws ?ex (outbox w)"
    let ?so = "send_owner_email e contest q h a ?ws ?ex (snd ?sw)"
    from 2(1) obtain squares' where sq': "squares_data e = Some squares'"
      and len: "length (rows_for (c_id contest) q ?w') = max 1 (length (rows_for (c_id contest) q w))"
      and rows: "\<forall>row \<in> set (rows_for (c_id contest) q ?w').
           result row =
             (build_result contest q h a (winningSquare contest squares' (js_rem h 10) (js_rem a 10)))
               \<lparr>winner_email_sent :=
                  fst (send_winner_email e b contest q h a
                     (winningSquare contest squares' (js_rem h 10) (js_rem a 10)) ?ex (outbox w)),
                owner_email_sent :=
                  fst (send_owner_email e contest q h a
                     (winningSquare contest squares' (js_rem h 10) (js_rem a 10)) ?ex
                     (snd (send_winner_email e b contest q h a
                        (winningSquare contest squares' (js_rem h 10) (js_rem a 10)) ?ex (outbox w))))\<rparr>"
      by (rule processQuarter_rows)
    from sq' 2(2) have same: "squares' = squares" by simp
    from len uniq have one: "length (rows_for (c_id contest) q ?w') = 1" by simp
    have flag: "existing_winner_sent (existing_result ?w' (c_id contest) q) = fst ?sw"
      using rows_flags_existing(1) [OF one rows] by (simp add: same)
    have own: "filter (\<lambda>c. is_winner_mail c \<and> accepted c) (snd ?so) =
               filter (\<lambda>c. is_winner_mail c \<and> accepted c) (snd ?sw)"
      using send_owner_email_cases [of e contest q h a ?ws ?ex "snd ?sw"]
      by (auto simp add: is_mail_excl)
    have cnt: "winner_mails_sent ?w' = length (filter (\<lambda>c. is_winner_mail c \<and> accepted c) (snd ?sw))"
      by (simp only: winner_mails_sent_def 2(3) own)
    from send_winner_email_cases [of e b contest q h a ?ws ?ex "outbox w"]
    show ?thesis
    proof (elim disjE conjE exE)
      assume "?sw = (True, outbox w)"
      then show ?thesis unfolding cnt by (simp add: winner_mails_sent_def)
    next
      assume "?sw = (True, outbox w)"
      then show ?thesis unfolding cnt by (simp add: winner_mails_sent_def)
    next
      fix c assume "?sw = (accepted c, outbox w @ [c])" "\<not> existing_winner_sent ?ex"
      then show ?thesis unfolding cnt flag by (simp add: winner_mails_sent_def)
    qed
  qed
  then show "winner_mails_sent ?w' \<le> winner_mails_sent w + 1"
    and "existing_winner_sent ?ex \<Longrightarrow> winner_mails_sent ?w' = winner_mails_sent w"
    and "winner_mails_sent ?w' \<noteq> winner_mails_sent w \<Longrightarrow>
         existing_winner_sent (existing_result ?w' (c_id contest) q)"
    by blast+
qed

lemma owner_mails_call:
  assumes uniq: "length (rows_for (c_id contest) q w) \<le> 1"
  shows "owner_mails_sent (snd (processQuarter e b contest q h a w)) \<le> owner_mails_sent w + 1"
    and "existing_owner_sent (existing_result w (c_id contest) q) \<Longrightarrow>
         owner_mails_sent (snd (processQuarter e b contest q h a w)) = owner_mails_sent w"
    and "owner_mails_sent (snd (processQuarter e b contest q h a w)) \<noteq> owner_mails_sent w \<Longrightarrow>
         existing_owner_sent
           (existing_result (snd (processQuarter e b contest q h a w)) (c_id contest) q)"
proof -
  let ?w' = "snd (processQuarter e b contest q h a w)"
  let ?ex = "existing_result w (c_id contest) q"
  have "owner_mails_sent ?w' \<le> owner_mails_sent w + 1 \<and>
        (existing_owner_sent ?ex \<longrightarrow> owner_mails_sent ?w' = owner_mails_sent w) \<and>
        (owner_mails_sent ?w' \<noteq> owner_mails_sent w \<longrightarrow>
           existing_owner_sent (existing_result ?w' (c_id contest) q))"
  proof (cases rule: processQuarter_outbox [of e b contest q h a w])
    case 1
    then show ?thesis by (simp add: owner_mails_sent_def)
  next
    case (2 squares)
    let ?ws = "winningSquare contest squares (js_rem h 10) (js_rem a 10)"
    let ?sw = "send_winner_email e b contest q h a ?ws ?ex (outbox w)"
    let ?so = "send_owner_email e contest q h a ?ws ?ex (snd ?sw)"
    from 2(1) obtain squares' where sq': "squares_data e = Some squares'"
      and len: "length (rows_for (c_id contest) q ?w') = max 1 (length (rows_for (c_id contest) q w))"
      and rows: "\<forall>row \<in> set (rows_for (c_id contest) q ?w').
           result row =
             (build_result contest q h a (winningSquare contest squares' (js_rem h 10) (js_rem a 10)))
               \<lparr>winner_email_sent :=
                  fst (send_winner_email e b contest q h a
                     (winningSquare contest squares' (js_rem h 10) (js_rem a 10)) ?ex (outbox w)),
                owner_email_sent :=
                  fst (send_owner_email e contest q h a
                     (winningSquare contest squares' (js_rem h 10) (js_rem a 10)) ?ex
                     (snd (send_winner_email e b contest q h a
                        (winningSquare contest squares' (js_rem h 10) (js_rem a 10)) ?ex (outbox w))))\<rparr>"
      by (rule processQuarter_rows)
    from sq' 2(2) have same: "squares' = squares" by simp
    from len uniq have one: "length (rows_for (c_id contest) q ?w') = 1" by simp
    have flag: "existing_owner_sent (existing_result ?w' (c_id contest) q) = fst ?so"
      using rows_flags_existing(2) [OF one rows] by (simp add: same)
    have win: "filter (\<lambda>c. is_owner_mail c \<and> accepted c) (snd ?sw) =
               filter (\<lambda>c. is_owner_mail c \<and> accepted c) (outbox w)"
      using send_winner_email_cases [of e b contest q h a ?ws ?ex "outbox w"]
      by (auto simp add: is_mail_excl)
    have cnt: "owner_mails_sent ?w' = length (filter (\<lambda>c. is_owner_mail c \<and> accepted c) (snd ?so))"
      by (simp only: owner_mails_sent_def 2(3))
    from send_owner_email_cases [of e contest q h a ?ws ?ex "snd ?sw"]
    show ?thesis
    proof (elim disjE conjE exE)
      assume "?so = (existing_owner_sent ?ex, snd ?sw)"
      then show ?thesis unfolding cnt flag by (simp add: owner_mails_sent_def win)
    next
      assume "?so = (existing_owner_sent ?ex, snd ?sw)"
      then show ?thesis unfolding cnt flag by (simp add: owner_mails_sent_def win)
    next
      fix c assume "?so = (accepted c, snd ?sw @ [c])" "\<not> existing_owner_sent ?ex"
      then show ?thesis unfolding cnt flag by (simp add: owner_mails_sent_def win)
    qed
  qed
  then show "owner_mails_sent ?w' \<le> owner_mails_sent w + 1"
    and "existing_owner_sent ?ex \<Longrightarrow> owner_mails_sent ?w' = owner_mails_sent w"
    and "owner_mails_sent ?w' \<noteq> owner_mails_sent w \<Longrightarrow>
         existing_owner_sent (existing_result ?w' (c_id contest) q)"
    by blast+
qed

lemma rows_after_call:
  assumes uniq: "length (rows_for (c_id contest) q w) \<le> 1"
  shows "length (rows_for (c_id contest) q (snd (processQuarter e b contest q h a w))) \<le> 1"
    and "error (fst (processQuarter e b contest q h a w)) = None \<Longrightarrow>
         length (rows_for (c_id contest) q (snd (processQuarter e b contest q h a w))) = 1"
    and "length (rows_for (c_id contest) q w) \<le>
         length (rows_for (c_id contest) q (snd (processQuarter e b contest q h a w)))"
proof -
  let ?P = "processQuarter e b contest q h a w"
  have "length (rows_for (c_id contest) q (snd ?P)) \<le> 1 \<and>
        (error (fst ?P) = None \<longrightarrow> length (rows_for (c_id contest) q (snd ?P)) = 1) \<and>
        length (rows_for (c_id contest) q w) \<le> length (rows_for (c_id contest) q (snd ?P))"
  proof (cases "processed (fst ?P)")
    case True
    then obtain squares where
      "length (rows_for (c_id contest) q (snd ?P)) = max 1 (length (rows_for (c_id contest) q w))"
      by (rule processQuarter_rows)
    with uniq show ?thesis by simp
  next
    case False
    then have same: "snd ?P = w" by (rule processQuarter_unprocessed)
    have "error (fst ?P) = None \<Longrightarrow> length (rows_for (c_id contest) q w) = 1"
    proof -
      assume noerr: "error (fst ?P) = None"
      have "existing_result w (c_id contest) q \<noteq> None"
      proof
        assume "existing_result w (c_id contest) q = None"
        with False noerr show False
          by (auto simp add: processQuarter_def Let_def squares_failure_def split_beta
              existing_winner_sent_def split: option.splits if_splits)
      qed
      then show ?thesis
        by (auto simp add: existing_of_rows single_row_def split: list.splits)
    qed
    with uniq same show ?thesis by simp
  qed
  then show "length (rows_for (c_id contest) q (snd ?P)) \<le> 1"
    and "error (fst ?P) = None \<Longrightarrow> length (rows_for (c_id contest) q (snd ?P)) = 1"
    and "length (rows_for (c_id contest) q w) \<le> length (rows_for (c_id contest) q (snd ?P))"
    by blast+
qed

subsection \<open>Idempotency and the sent flags\<close>

text \<open>
  Claim C1. When the stored result of the pair already has both sent flags true,
  \<open>processQuarter\<close> returns \<open>{processed: false}\<close> and leaves the whole world as it was:
  no result upsert, no scores write, no transport call, no flag update. And on a table
  holding at most one row for the pair (its unique key), two calls in succession, whatever
  the outside answers to each, leave exactly one row for the pair once the first call
  returned no error, and the transport accepts at most one winner email and at most one
  owner email over both calls.
\<close>

theorem processQuarter_idempotent:
  "(existing_result w (c_id contest) q = Some row \<and>
      winner_email_sent (result row) \<and> owner_email_sent (result row) \<longrightarrow>
      processQuarter e b contest q h a w = (\<lparr>processed = False, error = None\<rparr>, w)) \<and>
   (length (rows_for (c_id contest) q w) \<le> 1 \<longrightarrow>
      (error (fst (processQuarter e1 b contest q h a w)) = None \<longrightarrow>
         length (rows_for (c_id contest) q
           (snd (processQuarter e2 b contest q h a (snd (processQuarter e1 b contest q h a w))))) = 1) \<and>
      winner_mails_sent
         (snd (processQuarter e2 b contest q h a (snd (processQuarter e1 b contest q h a w))))
         \<le> winner_mails_sent w + 1 \<and>
      owner_mails_sent
         (snd (processQuarter e2 b contest q h a (snd (processQuarter e1 b contest q h a w))))
         \<le> owner_mails_sent w + 1)"
proof (intro conjI impI)
  assume "existing_result w (c_id contest) q = Some row \<and>
      winner_email_sent (result row) \<and> owner_email_sent (result row)"
  then show "processQuarter e b contest q h a w = (\<lparr>processed = False, error = None\<rparr>, w)"
    by (intro processQuarter_done) (simp_all add: existing_winner_sent_def existing_owner_sent_def)
next
  let ?w1 = "snd (processQuarter e1 b contest q h a w)"
  let ?w2 = "snd (processQuarter e2 b contest q h a ?w1)"
  assume uniq: "length (rows_for (c_id contest) q w) \<le> 1"
  have uniq1: "length (rows_for (c_id contest) q ?w1) \<le> 1"
    using uniq by (rule rows_after_call(1))
  {
    assume "error (fst (processQuarter e1 b contest q h a w)) = None"
    with uniq have "length (rows_for (c_id contest) q ?w1) = 1" by (rule rows_after_call(2))
    moreover have "length (rows_for (c_id contest) q ?w1) \<le> length (rows_for (c_id contest) q ?w2)"
      using uniq1 by (rule rows_after_call(3))
    moreover have "length (rows_for (c_id contest) q ?w2) \<le> 1"
      using uniq1 by (rule rows_after_call(1))
    ultimately show "length (rows_for (c_id contest) q ?w2) = 1" by simp
  }
  show "winner_mails_sent ?w2 \<le> winner_mails_sent w + 1"
  proof (cases "winner_mails_sent ?w1 = winner_mails_sent w")
    case True
    with winner_mails_call(1) [OF uniq1, of e2 b h a] show ?thesis by simp
  next
    case False
    with winner_mails_call(3) [OF uniq, of e1 b h a]
    have "existing_winner_sent (existing_result ?w1 (c_id contest) q)" by simp
    with winner_mails_call(2) [OF uniq1, of e2 b h a]
    have "winner_mails_sent ?w2 = winner_mails_sent ?w1" by simp
    with winner_mails_call(1) [OF uniq, of e1 b h a] show ?thesis by simp
  qed
  show "owner_mails_sent ?w2 \<le> owner_mails_sent w + 1"
  proof (cases "owner_mails_sent ?w1 = owner_mails_sent w")
    case True
    with owner_mails_call(1) [OF uniq1, of e2 b h a] show ?thesis by simp
  next
    case False
    with owner_mails_call(3) [OF uniq, of e1 b h a]
    have "existing_owner_sent (existing_result ?w1 (c_id contest) q)" by simp
    with owner_mails_call(2) [OF uniq1, of e2 b h a]
    have "owner_mails_sent ?w2 = owner_mails_sent ?w1" by simp
    with owner_mails_call(1) [OF uniq, of e1 b h a] show ?thesis by simp
  qed
qed

lemma flags_kept:
  assumes ex: "existing_result w (c_id contest) q = Some row"
  shows "rows_for (c_id contest) q (snd (processQuarter e b contest q h a w)) \<noteq> []"
    and "winner_email_sent (result row) \<Longrightarrow>
         \<forall>row' \<in> set (rows_for (c_id contest) q (snd (processQuarter e b contest q h a w))).
           winner_email_sent (result row')"
    and "owner_email_sent (result row) \<Longrightarrow>
         \<forall>row' \<in> set (rows_for (c_id contest) q (snd (processQuarter e b contest q h a w))).
           owner_email_sent (result row')"
proof -
  let ?P = "processQuarter e b contest q h a w"
  let ?rows' = "rows_for (c_id contest) q (snd ?P)"
  from ex have rows: "rows_for (c_id contest) q w = [row]"
    by (simp add: existing_of_rows single_row_Some)
  have "?rows' \<noteq> [] \<and>
        (winner_email_sent (result row) \<longrightarrow> (\<forall>row' \<in> set ?rows'. winner_email_sent (result row'))) \<and>
        (owner_email_sent (result row) \<longrightarrow> (\<forall>row' \<in> set ?rows'. owner_email_sent (result row')))"
  proof (cases "processed (fst ?P)")
    case False
    then have "snd ?P = w" by (rule processQuarter_unprocessed)
    with rows show ?thesis by simp
  next
    case True
    then obtain squares where
      len: "length ?rows' = max 1 (length (rows_for (c_id contest) q w))"
      and all: "\<forall>row' \<in> set ?rows'.
           result row' =
             (build_result contest q h a (winningSquare contest squares (js_rem h 10) (js_rem a 10)))
               \<lparr>winner_email_sent :=
                  fst (send_winner_email e b contest q h a
                     (winningSquare contest squares (js_rem h 10) (js_rem a 10))
                     (existing_result w (c_id contest) q) (outbox w)),
                owner_email_sent :=
                  fst (send_owner_email e contest q h a
                     (winningSquare contest squares (js_rem h 10) (js_rem a 10))
                     (existing_result w (c_id contest) q)
                     (snd (send_winner_email e b contest q h a
                        (winningSquare contest squares (js_rem h 10) (js_rem a 10))
                        (existing_result w (c_id contest) q) (outbox w))))\<rparr>"
      by (rule processQuarter_rows)
    from len have ne: "?rows' \<noteq> []" by auto
    have w: "winner_email_sent (result row) \<Longrightarrow> \<forall>row' \<in> set ?rows'. winner_email_sent (result row')"
      using all by (simp add: send_winner_email_keeps ex existing_winner_sent_def)
    have o: "owner_email_sent (result row) \<Longrightarrow> \<forall>row' \<in> set ?rows'. owner_email_sent (result row')"
      using all by (simp add: send_owner_email_keeps ex existing_owner_sent_def)
    from ne w o show ?thesis by blast
  qed
  then show "?rows' \<noteq> []"
    and "winner_email_sent (result row) \<Longrightarrow> \<forall>row' \<in> set ?rows'. winner_email_sent (result row')"
    and "owner_email_sent (result row) \<Longrightarrow> \<forall>row' \<in> set ?rows'. owner_email_sent (result row')"
    by blast+
qed

text \<open>
  Between the upsert and the final update the stored flags of the pair are both false:
  the upsert writes the record built with \<open>winner_email_sent: false\<close> and
  \<open>owner_email_sent: false\<close>, and the final update writes the flags back.
\<close>

lemma upsert_clears_flags:
  "\<forall>row \<in> set (filter (for_quarter (c_id contest) q)
                   (upsert_quarter_result (build_result contest q h a ws) rows)).
     \<not> winner_email_sent (result row) \<and> \<not> owner_email_sent (result row)"
  using rows_upsert_same [of "build_result contest q h a ws" rows]
  by (auto simp add: build_result_def)

text \<open>
  Claim C2. When the stored result has \<open>winner_email_sent = true\<close> and
  \<open>owner_email_sent = false\<close> at the start of a call, the call makes at most one
  transport call and it is an owner email, never a winner email; when the call is
  processed and the owner's address resolves, it is exactly the owner email to that
  address. The decision follows the flags read at the start: the record upserted during
  the call carries \<open>winner_email_sent = false\<close>, yet no winner email is sent. Afterwards
  the stored winner flag of the pair is true.
\<close>

theorem retry_sends_only_owner_email:
  assumes ex: "existing_result w (c_id contest) q = Some row"
    and wsent: "winner_email_sent (result row)"
    and osent: "\<not> owner_email_sent (result row)"
  shows "(\<exists>new. outbox (snd (processQuarter e b contest q h a w)) = outbox w @ new \<and>
            length new \<le> 1 \<and> (\<forall>c \<in> set new. is_owner_mail c \<and> \<not> is_winner_mail c)) \<and>
         (processed (fst (processQuarter e b contest q h a w)) \<and>
          truthy (Option.bind (getUserById e (owner_id contest)) user_email) \<longrightarrow>
            (\<exists>c. outbox (snd (processQuarter e b contest q h a w)) = outbox w @ [c] \<and>
                 is_owner_mail c \<and>
                 mail_to c = the (Option.bind (getUserById e (owner_id contest)) user_email))) \<and>
         (\<forall>squares. \<not> winner_email_sent
             (build_result contest q h a
                (winningSquare contest squares (js_rem h 10) (js_rem a 10)))) \<and>
         rows_for (c_id contest) q (snd (processQuarter e b contest q h a w)) \<noteq> [] \<and>
         (\<forall>row' \<in> set (rows_for (c_id contest) q (snd (processQuarter e b contest q h a w))).
            winner_email_sent (result row'))"
proof -
  let ?P = "processQuarter e b contest q h a w"
  from ex wsent have ews: "existing_winner_sent (existing_result w (c_id contest) q)"
    by (simp add: existing_winner_sent_def)
  from ex osent have eos: "\<not> existing_owner_sent (existing_result w (c_id contest) q)"
    by (simp add: existing_owner_sent_def)
  have mails: "(\<exists>new. outbox (snd ?P) = outbox w @ new \<and>
            length new \<le> 1 \<and> (\<forall>c \<in> set new. is_owner_mail c \<and> \<not> is_winner_mail c)) \<and>
         (processed (fst ?P) \<and>
          truthy (Option.bind (getUserById e (owner_id contest)) user_email) \<longrightarrow>
            (\<exists>c. outbox (snd ?P) = outbox w @ [c] \<and> is_owner_mail c \<and>
                 mail_to c = the (Option.bind (getUserById e (owner_id contest)) user_email)))"
  proof (cases rule: processQuarter_outbox [of e b contest q h a w])
    case 1
    then have "\<not> processed (fst ?P) \<or>
               \<not> truthy (Option.bind (getUserById e (owner_id contest)) user_email)"
      using ews eos
      by (auto simp add: processQuarter_def Let_def split_beta squares_failure_def
          send_winner_email_keeps send_owner_email_def sendEmail_def
          split: option.splits if_splits)
    with 1 show ?thesis by simp
  next
    case (2 squares)
    let ?ws = "winningSquare contest squares (js_rem h 10) (js_rem a 10)"
    have sw: "send_winner_email e b contest q h a ?ws (existing_result w (c_id contest) q) (outbox w)
                = (True, outbox w)"
      using ews by (rule send_winner_email_keeps)
    from send_owner_email_cases [of e contest q h a ?ws "existing_result w (c_id contest) q" "outbox w"]
    show ?thesis
      using eos by (auto simp add: 2(3) sw is_mail_excl)
  qed
  have written: "\<forall>squares. \<not> winner_email_sent
             (build_result contest q h a
                (winningSquare contest squares (js_rem h 10) (js_rem a 10)))"
    by (simp add: build_result_def)
  from mails written flags_kept(1) [OF ex, of e b h a] flags_kept(2) [OF ex wsent, of e b h a]
  show ?thesis by blast
qed


subsection \<open>Winner selection\<close>

lemma find_square_spec:
  "(find P xs = None \<longleftrightarrow> \<not> (\<exists>x \<in> set xs. P x)) \<and>
   (\<forall>x. find P xs = Some x \<longrightarrow> x \<in> set xs \<and> P x)"
  by (induction xs) auto

lemma winner_selection:
  assumes rows: "row_numbers contest = Some rn" and cols: "col_numbers contest = Some cn"
  shows
    "(0 \<le> homeScore \<longrightarrow> js_rem homeScore 10 = homeScore mod 10) \<and>
     (0 \<le> awayScore \<longrightarrow> js_rem awayScore 10 = awayScore mod 10) \<and>
     home_last_digit (build_result contest q homeScore awayScore ws) = js_rem homeScore 10 \<and>
     away_last_digit (build_result contest q homeScore awayScore ws) = js_rem awayScore 10 \<and>
     (js_rem homeScore 10 \<in> set rn \<longrightarrow>
        0 \<le> winningRowIndex contest (js_rem homeScore 10) \<and>
        winningRowIndex contest (js_rem homeScore 10) < int (length rn) \<and>
        rn ! nat (winningRowIndex contest (js_rem homeScore 10)) = js_rem homeScore 10 \<and>
        (\<forall>j < nat (winningRowIndex contest (js_rem homeScore 10)). rn ! j \<noteq> js_rem homeScore 10)) \<and>
     (js_rem awayScore 10 \<in> set cn \<longrightarrow>
        0 \<le> winningColIndex contest (js_rem awayScore 10) \<and>
        winningColIndex contest (js_rem awayScore 10) < int (length cn) \<and>
        cn ! nat (winningColIndex contest (js_rem awayScore 10)) = js_rem awayScore 10 \<and>
        (\<forall>j < nat (winningColIndex contest (js_rem awayScore 10)). cn ! j \<noteq> js_rem awayScore 10)) \<and>
     (js_rem homeScore 10 \<notin> set rn \<or> js_rem awayScore 10 \<notin> set cn \<longrightarrow>
        winningSquare contest squares (js_rem homeScore 10) (js_rem awayScore 10) = None) \<and>
     (js_rem homeScore 10 \<in> set rn \<and> js_rem awayScore 10 \<in> set cn \<longrightarrow>
        winningSquare contest squares (js_rem homeScore 10) (js_rem awayScore 10) =
          find (\<lambda>sq. row_index sq = winningRowIndex contest (js_rem homeScore 10) \<and>
                     col_index sq = winningColIndex contest (js_rem awayScore 10)) squares) \<and>
     (\<forall>sq. winningSquare contest squares (js_rem homeScore 10) (js_rem awayScore 10) = Some sq \<longrightarrow>
        sq \<in> set squares \<and>
        row_index sq = winningRowIndex contest (js_rem homeScore 10) \<and>
        col_index sq = winningColIndex contest (js_rem awayScore 10) \<and>
        rn ! nat (row_index sq) = js_rem homeScore 10 \<and>
        cn ! nat (col_index sq) = js_rem awayScore 10) \<and>
     (\<forall>other. row_numbers other = None \<or> col_numbers other = None \<longrightarrow>
        winningSquare other squares (js_rem homeScore 10) (js_rem awayScore 10) = None)"
proof -
  let ?hd = "js_rem homeScore 10" and ?ad = "js_rem awayScore 10"
  have r: "winningRowIndex contest ?hd = indexOf rn ?hd"
    by (simp add: winningRowIndex_def rows)
  have c: "winningColIndex contest ?ad = indexOf cn ?ad"
    by (simp add: winningColIndex_def cols)
  have digits: "(0 \<le> homeScore \<longrightarrow> ?hd = homeScore mod 10) \<and>
                (0 \<le> awayScore \<longrightarrow> ?ad = awayScore mod 10)"
    by (simp add: js_rem_nonneg)
  have recorded: "home_last_digit (build_result contest q homeScore awayScore ws) = ?hd \<and>
                  away_last_digit (build_result contest q homeScore awayScore ws) = ?ad"
    by (simp add: build_result_def)
  have rowpos: "?hd \<in> set rn \<longrightarrow>
        0 \<le> winningRowIndex contest ?hd \<and> winningRowIndex contest ?hd < int (length rn) \<and>
        rn ! nat (winningRowIndex contest ?hd) = ?hd \<and>
        (\<forall>j < nat (winningRowIndex contest ?hd). rn ! j \<noteq> ?hd)"
    unfolding r using indexOf_position [of ?hd rn] by blast
  have colpos: "?ad \<in> set cn \<longrightarrow>
        0 \<le> winningColIndex contest ?ad \<and> winningColIndex contest ?ad < int (length cn) \<and>
        cn ! nat (winningColIndex contest ?ad) = ?ad \<and>
        (\<forall>j < nat (winningColIndex contest ?ad). cn ! j \<noteq> ?ad)"
    unfolding c using indexOf_position [of ?ad cn] by blast
  have none: "?hd \<notin> set rn \<or> ?ad \<notin> set cn \<longrightarrow> winningSquare contest squares ?hd ?ad = None"
    by (auto simp add: winningSquare_def r c indexOf_missing)
  have some: "?hd \<in> set rn \<and> ?ad \<in> set cn \<longrightarrow>
        winningSquare contest squares ?hd ?ad =
          find (\<lambda>sq. row_index sq = winningRowIndex contest ?hd \<and>
                     col_index sq = winningColIndex contest ?ad) squares"
    by (auto simp add: winningSquare_def r c indexOf_missing)
  have sq: "\<forall>sq. winningSquare contest squares ?hd ?ad = Some sq \<longrightarrow>
        sq \<in> set squares \<and> row_index sq = winningRowIndex contest ?hd \<and>
        col_index sq = winningColIndex contest ?ad \<and>
        rn ! nat (row_index sq) = ?hd \<and> cn ! nat (col_index sq) = ?ad"
  proof (intro allI impI)
    fix sq assume w: "winningSquare contest squares ?hd ?ad = Some sq"
    with none have mem: "?hd \<in> set rn" "?ad \<in> set cn" by auto
    with some w have "find (\<lambda>sq. row_index sq = winningRowIndex contest ?hd \<and>
                     col_index sq = winningColIndex contest ?ad) squares = Some sq" by simp
    then have "sq \<in> set squares \<and> row_index sq = winningRowIndex contest ?hd \<and>
        col_index sq = winningColIndex contest ?ad"
      using find_square_spec by fast
    with rowpos colpos mem
    show "sq \<in> set squares \<and> row_index sq = winningRowIndex contest ?hd \<and>
        col_index sq = winningColIndex contest ?ad \<and>
        rn ! nat (row_index sq) = ?hd \<and> cn ! nat (col_index sq) = ?ad" by simp
  qed
  have absent: "\<forall>other. row_numbers other = None \<or> col_numbers other = None \<longrightarrow>
        winningSquare other squares ?hd ?ad = None"
    by (auto simp add: winningSquare_def winningRowIndex_def winningColIndex_def)
  from digits recorded rowpos colpos none some sq absent show ?thesis by blast
qed

subsection \<open>Quarter resolution\<close>

lemma period_loop_closed:
  "period_loop p period acc = acc @ List.map_filter PERIOD_TO_QUARTER [p..min period 4]"
proof (induction p period acc rule: period_loop.induct)
  case (1 p period acc)
  show ?case
  proof (cases "p \<le> min period 4")
    case True
    then have unroll: "[p..min period 4] = p # [p + 1..min period 4]"
      by (simp add: upto_rec1)
    have "period_loop p period acc =
            period_loop (p + 1) period
              (case PERIOD_TO_QUARTER p of None \<Rightarrow> acc | Some q \<Rightarrow> acc @ [q])"
      by (subst period_loop.simps) (simp only: True if_True)
    also have "\<dots> = (case PERIOD_TO_QUARTER p of None \<Rightarrow> acc | Some q \<Rightarrow> acc @ [q]) @
                     List.map_filter PERIOD_TO_QUARTER [p + 1..min period 4]"
      using True by (rule 1)
    also have "\<dots> = acc @ List.map_filter PERIOD_TO_QUARTER [p..min period 4]"
      unfolding unroll by (simp split: option.splits)
    finally show ?thesis .
  next
    case False
    then have "min period 4 < p" by (simp only: not_le)
    then have empty: "[p..min period 4] = []" by (simp only: upto_empty)
    have "period_loop p period acc = acc"
      by (subst period_loop.simps) (simp only: False if_False)
    then show ?thesis unfolding empty by simp
  qed
qed

lemma quarters_upto:
  "List.map_filter PERIOD_TO_QUARTER [1..min period 4] =
     take (nat (min period 4)) [''q1'', ''q2'', ''q3'', ''final'']"
proof -
  consider "min period 4 \<le> 0" | "min period 4 = 1" | "min period 4 = 2" | "min period 4 = 3"
    | "min period 4 = 4"
    by (cases "period \<le> 4") (auto simp add: min_def; arith)+
  then show ?thesis
  proof cases
    case 1
    then show ?thesis by simp
  next
    case 2
    then show ?thesis by (simp add: upto_rec1 PERIOD_TO_QUARTER_def)
  next
    case 3
    then show ?thesis by (simp add: upto_rec1 PERIOD_TO_QUARTER_def)
  next
    case 4
    then show ?thesis by (simp add: upto_rec1 PERIOD_TO_QUARTER_def)
  next
    case 5
    then show ?thesis by (simp add: upto_rec1 PERIOD_TO_QUARTER_def)
  qed
qed

text \<open>
  Claim C5. The quarter resolution is the priority table: (1) a manual quarter, when
  supplied, is the only quarter, whatever the status; (2) otherwise a final status or a
  set completed flag gives the four quarters in the order q1, q2, q3, final; (3) otherwise
  an end-of-period or halftime status with period \<open>p\<close> gives the quarters of the periods
  from 1 to \<open>min p 4\<close> in ascending order; (4) otherwise the handler returns at once
  with status \<open>in_progress\<close>, nothing resolved and the world untouched.
\<close>

theorem quarter_resolution_table:
  "(truthy manualQuarter \<longrightarrow>
      quartersToProcess manualQuarter statusName completed period = Some [the manualQuarter]) \<and>
   (\<not> truthy manualQuarter \<and> (statusName = ''STATUS_FINAL'' \<or> completed) \<longrightarrow>
      quartersToProcess manualQuarter statusName completed period =
        Some [''q1'', ''q2'', ''q3'', ''final'']) \<and>
   (\<not> truthy manualQuarter \<and> statusName \<noteq> ''STATUS_FINAL'' \<and> \<not> completed \<and>
    (statusName = ''STATUS_END_PERIOD'' \<or> statusName = ''STATUS_HALFTIME'') \<longrightarrow>
      quartersToProcess manualQuarter statusName completed period =
        Some (List.map_filter PERIOD_TO_QUARTER [1..min period 4]) \<and>
      List.map_filter PERIOD_TO_QUARTER [1..min period 4] =
        take (nat (min period 4)) [''q1'', ''q2'', ''q3'', ''final'']) \<and>
   (\<not> truthy manualQuarter \<and> statusName \<noteq> ''STATUS_FINAL'' \<and> \<not> completed \<and>
    statusName \<noteq> ''STATUS_END_PERIOD'' \<and> statusName \<noteq> ''STATUS_HALFTIME'' \<longrightarrow>
      quartersToProcess manualQuarter statusName completed period = None \<and>
      serve_quarters envs baseUrl manualQuarter statusName completed period homeScore awayScore
        contests contestsError w = (InProgress, w))"
  by (simp add: quartersToProcess_def serve_quarters_def period_loop_closed quarters_upto)

subsection \<open>Prize and payout\<close>

lemma stored_prize:
  assumes "processed (fst (processQuarter e b contest q h a w))"
  shows "rows_for (c_id contest) q (snd (processQuarter e b contest q h a w)) \<noteq> []"
    and "\<forall>row \<in> set (rows_for (c_id contest) q (snd (processQuarter e b contest q h a w))).
           prize_amount (result row) = Some (getPrizeAmount contest q) \<and>
           payout_percent (result row) = Some (getPayoutPercent contest q)"
proof -
  let ?P = "processQuarter e b contest q h a w"
  from assms obtain squares where
    len: "length (rows_for (c_id contest) q (snd ?P)) = max 1 (length (rows_for (c_id contest) q w))"
    and all: "\<forall>row \<in> set (rows_for (c_id contest) q (snd ?P)).
           result row =
             (build_result contest q h a (winningSquare contest squares (js_rem h 10) (js_rem a 10)))
               \<lparr>winner_email_sent :=
                  fst (send_winner_email e b contest q h a
                     (winningSquare contest squares (js_rem h 10) (js_rem a 10))
                     (existing_result w (c_id contest) q) (outbox w)),
                owner_email_sent :=
                  fst (send_owner_email e contest q h a
                     (winningSquare contest squares (js_rem h 10) (js_rem a 10))
                     (existing_result w (c_id contest) q)
                     (snd (send_winner_email e b contest q h a
                        (winningSquare contest squares (js_rem h 10) (js_rem a 10))
                        (existing_result w (c_id contest) q) (outbox w))))\<rparr>"
    by (rule processQuarter_rows)
  from len show "rows_for (c_id contest) q (snd ?P) \<noteq> []" by auto
  from all show "\<forall>row \<in> set (rows_for (c_id contest) q (snd ?P)).
           prize_amount (result row) = Some (getPrizeAmount contest q) \<and>
           payout_percent (result row) = Some (getPayoutPercent contest q)"
    by (simp add: build_result_def)
qed

text \<open>
  Claim C6. The prize amount of a quarter is
  \<open>square_price \<times> 100 \<times> payout_percent / 100\<close>, and that value is what a processed
  call stores for the pair, whatever the squares are; a price of 10 with a payout of 25
  percent gives 250.
\<close>

theorem prize_amount_formula:
  "getPrizeAmount contest q =
     square_price contest * 100 * of_int (getPayoutPercent contest q) / 100 \<and>
   (processed (fst (processQuarter e b contest q h a w)) \<longrightarrow>
      rows_for (c_id contest) q (snd (processQuarter e b contest q h a w)) \<noteq> [] \<and>
      (\<forall>row \<in> set (rows_for (c_id contest) q (snd (processQuarter e b contest q h a w))).
         prize_amount (result row) =
           Some (square_price contest * 100 * of_int (getPayoutPercent contest q) / 100))) \<and>
   (square_price contest = 10 \<and> payout_column contest q = Some 25 \<longrightarrow>
      getPrizeAmount contest q = 250)"
proof -
  have formula: "getPrizeAmount contest q =
     square_price contest * 100 * of_int (getPayoutPercent contest q) / 100"
    by (simp add: getPrizeAmount_def Let_def)
  have example: "square_price contest = 10 \<and> payout_column contest q = Some 25 \<longrightarrow>
      getPrizeAmount contest q = 250"
    by (simp add: getPrizeAmount_def getPayoutPercent_def Let_def)
  from formula example stored_prize [of e b contest q h a w] show ?thesis
    by (simp del: times_divide_eq_left times_divide_eq_right)
qed

lemma processQuarter_payout_only:
  assumes "getPayoutPercent
             (contest\<lparr>payout_q1_percent := p1, payout_q2_percent := p2,
                      payout_q3_percent := p3, payout_final_percent := p4\<rparr>) q =
           getPayoutPercent contest q"
  shows "processQuarter e b
           (contest\<lparr>payout_q1_percent := p1, payout_q2_percent := p2,
                    payout_q3_percent := p3, payout_final_percent := p4\<rparr>) q h a w =
         processQuarter e b contest q h a w"
  using assms
  by (simp add: processQuarter_def build_result_def send_winner_email_def send_owner_email_def
      winningSquare_def winningRowIndex_def winningColIndex_def getPrizeAmount_def Let_def
      cong: if_cong option.case_cong)

text \<open>
  Claim C10. When the payout percent of the quarter is absent, \<open>getPayoutPercent\<close> is 0
  and the prize is 0; a processed call stores \<open>prize_amount = 0\<close> and
  \<open>payout_percent = 0\<close>; and the call is equal, in what it returns and in the world it
  leaves, to the call on the same contest with an explicit payout of 0 for that quarter.
\<close>

theorem absent_payout_is_zero:
  assumes absent: "payout_column contest q = None"
  shows "getPayoutPercent contest q = 0 \<and> getPrizeAmount contest q = 0 \<and>
     (processed (fst (processQuarter e b contest q h a w)) \<longrightarrow>
        rows_for (c_id contest) q (snd (processQuarter e b contest q h a w)) \<noteq> [] \<and>
        (\<forall>row \<in> set (rows_for (c_id contest) q (snd (processQuarter e b contest q h a w))).
           prize_amount (result row) = Some 0 \<and> payout_percent (result row) = Some 0)) \<and>
     (\<forall>p1 p2 p3 p4.
        payout_column (contest\<lparr>payout_q1_percent := p1, payout_q2_percent := p2,
                               payout_q3_percent := p3, payout_final_percent := p4\<rparr>) q = Some 0 \<longrightarrow>
        processQuarter e b
           (contest\<lparr>payout_q1_percent := p1, payout_q2_percent := p2,
                    payout_q3_percent := p3, payout_final_percent := p4\<rparr>) q h a w =
        processQuarter e b contest q h a w)"
proof -
  from absent have pct: "getPayoutPercent contest q = 0"
    by (simp add: getPayoutPercent_def)
  then have prize: "getPrizeAmount contest q = 0"
    by (simp add: getPrizeAmount_def Let_def)
  have same: "\<forall>p1 p2 p3 p4.
        payout_column (contest\<lparr>payout_q1_percent := p1, payout_q2_percent := p2,
                               payout_q3_percent := p3, payout_final_percent := p4\<rparr>) q = Some 0 \<longrightarrow>
        processQuarter e b
           (contest\<lparr>payout_q1_percent := p1, payout_q2_percent := p2,
                    payout_q3_percent := p3, payout_final_percent := p4\<rparr>) q h a w =
        processQuarter e b contest q h a w"
  proof (intro allI impI)
    fix p1 p2 p3 p4
    assume "payout_column (contest\<lparr>payout_q1_percent := p1, payout_q2_percent := p2,
                               payout_q3_percent := p3, payout_final_percent := p4\<rparr>) q = Some 0"
    then have "getPayoutPercent (contest\<lparr>payout_q1_percent := p1, payout_q2_percent := p2,
                               payout_q3_percent := p3, payout_final_percent := p4\<rparr>) q =
               getPayoutPercent contest q"
      by (simp add: getPayoutPercent_def absent)
    then show "processQuarter e b
           (contest\<lparr>payout_q1_percent := p1, payout_q2_percent := p2,
                    payout_q3_percent := p3, payout_final_percent := p4\<rparr>) q h a w =
        processQuarter e b contest q h a w"
      by (rule processQuarter_payout_only)
  qed
  from pct prize same stored_prize [of e b contest q h a w] show ?thesis by simp
qed

subsection \<open>The manual path\<close>

lemma save_loop_single:
  "sv_upsert_error se (si_quarter score) = None \<Longrightarrow>
   save_loop se cid rn cn [score] [] tbl =
     (Inr [\<lparr>wi_quarter = si_quarter score, wi_homeScore = si_homeScore score,
            wi_awayScore = si_awayScore score,
            winningSquareId = or_null (map_option sq_id (save_winningSquare rn cn (sv_squares_data se) score)),
            winnerName = save_winnerName (save_winningSquare rn cn (sv_squares_data se) score),
            winnerEmail = or_null (Option.bind (save_winningSquare rn cn (sv_squares_data se) score) claimant_email)\<rparr>],
      upsert_score
        \<lparr>s_contest_id = cid, s_quarter = si_quarter score,
         s_home_score = si_homeScore score, s_away_score = si_awayScore score,
         s_winning_square_id = or_null (map_option sq_id (save_winningSquare rn cn (sv_squares_data se) score)),
         entered_at = sv_now se\<rparr> tbl)"
  by (simp add: Let_def)

text \<open>
  Claim C4. On the same number assignments, squares and scores, the selection inside
  \<open>saveScores\<close> and the selection inside \<open>processQuarter\<close> give the same winning row
  index, the same winning column index, the same winning square (so none in the same
  cases) and the same winning square id. When both paths pass their guards and their
  writes succeed, they leave the same \<open>scores\<close> table, and the winner id and address
  \<open>saveScores\<close> returns are those \<open>processQuarter\<close> stores. With an assignment absent
  \<open>processQuarter\<close> selects no winner and \<open>saveScores\<close> rejects the entry, writing nothing.
\<close>

theorem manual_and_automated_agree:
  assumes rows: "row_numbers contest = Some rn" and cols: "col_numbers contest = Some cn"
    and score: "score = \<lparr>si_quarter = q, si_homeScore = h, si_awayScore = a\<rparr>"
  shows
    "save_winningRowIndex rn score = winningRowIndex contest (js_rem h 10) \<and>
     save_winningColIndex cn score = winningColIndex contest (js_rem a 10) \<and>
     save_winningSquare rn cn (Some squares) score =
       winningSquare contest squares (js_rem h 10) (js_rem a 10) \<and>
     or_null (map_option sq_id (save_winningSquare rn cn (Some squares) score)) =
       winning_square_id (build_result contest q h a
          (winningSquare contest squares (js_rem h 10) (js_rem a 10))) \<and>
     (processed (fst (processQuarter e b contest q h a w)) \<and>
      squares_data e = Some squares \<and>
      sv_user se = Some (owner_id contest) \<and> sv_contest se = Some contest \<and>
      c_status contest = ''in_progress'' \<and>
      sv_squares_data se = Some squares \<and> sv_squares_error se = None \<and>
      sv_upsert_error se q = None \<and> sv_now se = now e \<longrightarrow>
        snd (saveScores se (c_id contest) [score] (scores w)) =
          scores (snd (processQuarter e b contest q h a w)) \<and>
        (\<exists>info. fst (saveScores se (c_id contest) [score] (scores w)) = Inr [info] \<and>
           (\<forall>row \<in> set (rows_for (c_id contest) q (snd (processQuarter e b contest q h a w))).
              winning_square_id (result row) = winningSquareId info \<and>
              winner_email (result row) = winnerEmail info))) \<and>
     (\<forall>other. row_numbers other = None \<or> col_numbers other = None \<longrightarrow>
        winningSquare other squares (js_rem h 10) (js_rem a 10) = None \<and>
        (\<forall>se' cid inputs tbl. sv_contest se' = Some other \<longrightarrow>
           (\<exists>msg. saveScores se' cid inputs tbl = (Inl msg, tbl))))"
proof -
  let ?ws = "winningSquare contest squares (js_rem h 10) (js_rem a 10)"
  have r: "save_winningRowIndex rn score = winningRowIndex contest (js_rem h 10)"
    by (simp add: save_winningRowIndex_def winningRowIndex_def rows score)
  have c: "save_winningColIndex cn score = winningColIndex contest (js_rem a 10)"
    by (simp add: save_winningColIndex_def winningColIndex_def cols score)
  have sq: "save_winningSquare rn cn (Some squares) score = ?ws"
    by (simp add: save_winningSquare_def winningSquare_def r c Let_def)
  have ident: "or_null (map_option sq_id (save_winningSquare rn cn (Some squares) score)) =
       winning_square_id (build_result contest q h a ?ws)"
    by (simp add: sq build_result_def)
  have paths: "snd (saveScores se (c_id contest) [score] (scores w)) =
          scores (snd (processQuarter e b contest q h a w)) \<and>
        (\<exists>info. fst (saveScores se (c_id contest) [score] (scores w)) = Inr [info] \<and>
           (\<forall>row \<in> set (rows_for (c_id contest) q (snd (processQuarter e b contest q h a w))).
              winning_square_id (result row) = winningSquareId info \<and>
              winner_email (result row) = winnerEmail info))"
    if pr: "processed (fst (processQuarter e b contest q h a w))"
      and sd: "squares_data e = Some squares"
      and guards: "sv_user se = Some (owner_id contest)" "sv_contest se = Some contest"
        "c_status contest = ''in_progress''"
        "sv_squares_data se = Some squares" "sv_squares_error se = None"
        "sv_upsert_error se q = None" "sv_now se = now e"
  proof -
    let ?P = "processQuarter e b contest q h a w"
    from pr obtain squares' where sq': "squares_data e = Some squares'"
      and sc: "scores (snd ?P) =
           upsert_score
             \<lparr>s_contest_id = c_id contest, s_quarter = q, s_home_score = h, s_away_score = a,
              s_winning_square_id = or_null (map_option sq_id
                 (winningSquare contest squares' (js_rem h 10) (js_rem a 10))),
              entered_at = now e\<rparr> (scores w)"
      by (rule processQuarter_processed)
    from pr obtain squares'' where sq'': "squares_data e = Some squares''"
      and all: "\<forall>row \<in> set (rows_for (c_id contest) q (snd ?P)).
           result row =
             (build_result contest q h a (winningSquare contest squares'' (js_rem h 10) (js_rem a 10)))
               \<lparr>winner_email_sent :=
                  fst (send_winner_email e b contest q h a
                     (winningSquare contest squares'' (js_rem h 10) (js_rem a 10))
                     (existing_result w (c_id contest) q) (outbox w)),
                owner_email_sent :=
                  fst (send_owner_email e contest q h a
                     (winningSquare contest squares'' (js_rem h 10) (js_rem a 10))
                     (existing_result w (c_id contest) q)
                     (snd (send_winner_email e b contest q h a
                        (winningSquare contest squares'' (js_rem h 10) (js_rem a 10))
                        (existing_result w (c_id contest) q) (outbox w))))\<rparr>"
      by (rule processQuarter_rows)
    from sd sq' sq'' have same: "squares' = squares" "squares'' = squares" by simp_all
    have q: "si_quarter score = q" "si_homeScore score = h" "si_awayScore score = a"
      by (simp_all add: score)
    have save: "saveScores se (c_id contest) [score] (scores w) =
                  save_loop se (c_id contest) rn cn [score] [] (scores w)"
      by (simp add: saveScores_def guards rows cols)
    have loop: "save_loop se (c_id contest) rn cn [score] [] (scores w) =
     (Inr [\<lparr>wi_quarter = si_quarter score, wi_homeScore = si_homeScore score,
            wi_awayScore = si_awayScore score,
            winningSquareId = or_null (map_option sq_id (save_winningSquare rn cn (sv_squares_data se) score)),
            winnerName = save_winnerName (save_winningSquare rn cn (sv_squares_data se) score),
            winnerEmail = or_null (Option.bind (save_winningSquare rn cn (sv_squares_data se) score) claimant_email)\<rparr>],
      upsert_score
        \<lparr>s_contest_id = c_id contest, s_quarter = si_quarter score,
         s_home_score = si_homeScore score, s_away_score = si_awayScore score,
         s_winning_square_id = or_null (map_option sq_id (save_winningSquare rn cn (sv_squares_data se) score)),
         entered_at = sv_now se\<rparr> (scores w))"
      by (rule save_loop_single) (simp add: q guards)
    have tbl: "snd (saveScores se (c_id contest) [score] (scores w)) = scores (snd ?P)"
      by (simp add: save loop sc same guards sq q Let_def)
    have info: "\<exists>info. fst (saveScores se (c_id contest) [score] (scores w)) = Inr [info] \<and>
           (\<forall>row \<in> set (rows_for (c_id contest) q (snd ?P)).
              winning_square_id (result row) = winningSquareId info \<and>
              winner_email (result row) = winnerEmail info)"
      using all by (simp add: save loop same guards sq q build_result_def Let_def)
    from tbl info show ?thesis by blast
  qed
  have absent: "\<forall>other. row_numbers other = None \<or> col_numbers other = None \<longrightarrow>
        winningSquare other squares (js_rem h 10) (js_rem a 10) = None \<and>
        (\<forall>se' cid inputs tbl. sv_contest se' = Some other \<longrightarrow>
           (\<exists>msg. saveScores se' cid inputs tbl = (Inl msg, tbl)))"
    by (auto simp add: winningSquare_def winningRowIndex_def winningColIndex_def saveScores_def
        split: option.splits)
  from r c sq ident paths absent show ?thesis by blast
qed

subsection \<open>Contests without numbers\<close>

lemma contest_loop_filter:
  "contest_loop envs b qs h a cs st = contest_loop envs b qs h a (filter has_numbers cs) st"
  by (induction cs arbitrary: st) (auto simp add: has_numbers_def)

lemma rows_upsert_other_contest:
  "cid \<noteq> contest_id r \<Longrightarrow>
   filter (\<lambda>row. contest_id (result row) = cid) (upsert_quarter_result r rows) =
   filter (\<lambda>row. contest_id (result row) = cid) rows"
  by (auto simp add: upsert_quarter_result_def upsert_def for_quarter_def
      intro!: filter_map_if_other)

lemma rows_update_other_contest:
  "cid' \<noteq> cid \<Longrightarrow>
   filter (\<lambda>row. contest_id (result row) = cid') (update_email_status cid q we oe t rows) =
   filter (\<lambda>row. contest_id (result row) = cid') rows"
  unfolding update_email_status_def
  by (rule filter_map_if_other) (auto simp add: for_quarter_def)

lemma processQuarter_other_contest:
  assumes "cid \<noteq> c_id contest"
  shows "filter (\<lambda>row. contest_id (result row) = cid)
           (quarter_results (snd (processQuarter e b contest q h a w))) =
         filter (\<lambda>row. contest_id (result row) = cid) (quarter_results w)"
    and "processing_log (snd (processQuarter e b contest q h a w)) = processing_log w"
proof -
  let ?P = "processQuarter e b contest q h a w"
  have "filter (\<lambda>row. contest_id (result row) = cid) (quarter_results (snd ?P)) =
         filter (\<lambda>row. contest_id (result row) = cid) (quarter_results w) \<and>
        processing_log (snd ?P) = processing_log w"
  proof (cases "processed (fst ?P)")
    case False
    then show ?thesis by (simp add: processQuarter_unprocessed)
  next
    case True
    then show ?thesis
      by (rule processQuarter_processed)
        (use assms in \<open>simp add: rows_update_other_contest rows_upsert_other_contest\<close>)
  qed
  then show "filter (\<lambda>row. contest_id (result row) = cid) (quarter_results (snd ?P)) =
         filter (\<lambda>row. contest_id (result row) = cid) (quarter_results w)"
    and "processing_log (snd ?P) = processing_log w" by simp_all
qed

lemma quarter_loop_other_contest:
  assumes "cid \<noteq> c_id contest"
  shows "filter (\<lambda>r. r_contestId r = cid) (fst (quarter_loop envs b contest h a qs (rs, w))) =
           filter (\<lambda>r. r_contestId r = cid) rs \<and>
         filter (\<lambda>row. contest_id (result row) = cid)
           (quarter_results (snd (quarter_loop envs b contest h a qs (rs, w)))) =
           filter (\<lambda>row. contest_id (result row) = cid) (quarter_results w) \<and>
         filter (\<lambda>l. detail_contestId l = cid)
           (processing_log (snd (quarter_loop envs b contest h a qs (rs, w)))) =
           filter (\<lambda>l. detail_contestId l = cid) (processing_log w)"
proof (induction qs arbitrary: rs w)
  case Nil
  then show ?case by simp
next
  case (Cons q qs)
  obtain res w1 where P: "processQuarter (envs (c_id contest) q) b contest q h a w = (res, w1)"
    by (cases "processQuarter (envs (c_id contest) q) b contest q h a w")
  from processQuarter_other_contest [OF assms, of "envs (c_id contest) q" b q h a w] P
  have w1: "filter (\<lambda>row. contest_id (result row) = cid) (quarter_results w1) =
            filter (\<lambda>row. contest_id (result row) = cid) (quarter_results w)"
    "processing_log w1 = processing_log w" by simp_all
  show ?case
    using assms w1 by (simp add: P Cons.IH Let_def log_action_def)
qed

lemma contest_loop_other_contest:
  assumes "\<forall>c \<in> set cs. has_numbers c \<longrightarrow> c_id c \<noteq> cid"
  shows "filter (\<lambda>r. r_contestId r = cid) (fst (contest_loop envs b qs h a cs (rs, w))) =
           filter (\<lambda>r. r_contestId r = cid) rs \<and>
         filter (\<lambda>row. contest_id (result row) = cid)
           (quarter_results (snd (contest_loop envs b qs h a cs (rs, w)))) =
           filter (\<lambda>row. contest_id (result row) = cid) (quarter_results w) \<and>
         filter (\<lambda>l. detail_contestId l = cid)
           (processing_log (snd (contest_loop envs b qs h a cs (rs, w)))) =
           filter (\<lambda>l. detail_contestId l = cid) (processing_log w)"
  using assms
proof (induction cs arbitrary: rs w)
  case Nil
  then show ?case by simp
next
  case (Cons c cs)
  show ?case
  proof (cases "has_numbers c")
    case False
    with Cons show ?thesis by (simp add: has_numbers_def)
  next
    case True
    with Cons.prems have ne: "cid \<noteq> c_id c" by auto
    obtain rs1 w1 where Q: "quarter_loop envs b c h a qs (rs, w) = (rs1, w1)"
      by (cases "quarter_loop envs b c h a qs (rs, w)")
    from quarter_loop_other_contest [OF ne, of envs b h a qs rs w] Q
    have step: "filter (\<lambda>r. r_contestId r = cid) rs1 = filter (\<lambda>r. r_contestId r = cid) rs"
      "filter (\<lambda>row. contest_id (result row) = cid) (quarter_results w1) =
         filter (\<lambda>row. contest_id (result row) = cid) (quarter_results w)"
      "filter (\<lambda>l. detail_contestId l = cid) (processing_log w1) =
         filter (\<lambda>l. detail_contestId l = cid) (processing_log w)" by simp_all
    from Cons.prems have rest: "\<forall>c \<in> set cs. has_numbers c \<longrightarrow> c_id c \<noteq> cid" by simp
    from True have "\<not> (row_numbers c = None \<or> col_numbers c = None)"
      by (simp add: has_numbers_def)
    then have unroll: "contest_loop envs b qs h a (c # cs) (rs, w) =
                         contest_loop envs b qs h a cs (rs1, w1)"
      by (simp only: contest_loop.simps if_False Q)
    from Cons.IH [OF rest, of rs1 w1] step show ?thesis
      unfolding unroll by simp
  qed
qed

lemma processQuarter_other_pair:
  assumes "(cid, q') \<noteq> (c_id contest, q)"
  shows "rows_for cid q' (snd (processQuarter e b contest q h a w)) = rows_for cid q' w"
proof (cases "processed (fst (processQuarter e b contest q h a w))")
  case False
  then show ?thesis by (simp add: processQuarter_unprocessed)
next
  case True
  then show ?thesis
    by (rule processQuarter_processed)
      (use assms in \<open>simp add: rows_for_def rows_update_other rows_upsert_other\<close>)
qed

text \<open>
  Claim C9. A contest of the eligible set whose \<open>row_numbers\<close> or \<open>col_numbers\<close> is
  null is skipped by the per-quarter loop of the run handler: the loop is the loop without it (no call
  of \<open>processQuarter\<close> for it), the response holds no result entry for it, no stored
  result of it is created or changed, and the loop writes no log entry, so no error, for it.
  Contest ids are keys: no contest with numbers shares its id.
\<close>

theorem contest_without_numbers_skipped:
  assumes nonum: "row_numbers contest = None \<or> col_numbers contest = None"
    and ids: "\<forall>c \<in> set (pre @ post). has_numbers c \<longrightarrow> c_id c \<noteq> c_id contest"
  shows "contest_loop envs b qs h a (pre @ contest # post) st =
           contest_loop envs b qs h a (pre @ post) st \<and>
     (\<forall>r \<in> set (fst (contest_loop envs b qs h a (pre @ contest # post) ([], w))).
        r_contestId r \<noteq> c_id contest) \<and>
     filter (\<lambda>row. contest_id (result row) = c_id contest)
       (quarter_results (snd (contest_loop envs b qs h a (pre @ contest # post) ([], w)))) =
       filter (\<lambda>row. contest_id (result row) = c_id contest) (quarter_results w) \<and>
     filter (\<lambda>l. detail_contestId l = c_id contest)
       (processing_log (snd (contest_loop envs b qs h a (pre @ contest # post) ([], w)))) =
       filter (\<lambda>l. detail_contestId l = c_id contest) (processing_log w) \<and>
     (\<forall>qs' n results w'.
        serve_quarters envs b manualQuarter statusName completed period h a
          (Some (pre @ contest # post)) None w = (Processed qs' n results, w') \<longrightarrow>
        (\<forall>r \<in> set results. r_contestId r \<noteq> c_id contest) \<and>
        filter (\<lambda>row. contest_id (result row) = c_id contest) (quarter_results w') =
          filter (\<lambda>row. contest_id (result row) = c_id contest) (quarter_results w))"
proof -
  from nonum have no: "\<not> has_numbers contest" by (auto simp add: has_numbers_def)
  have skip: "contest_loop envs b qs0 h a (pre @ contest # post) st0 =
              contest_loop envs b qs0 h a (pre @ post) st0" for qs0 st0
  proof -
    have "contest_loop envs b qs0 h a (pre @ contest # post) st0 =
          contest_loop envs b qs0 h a (filter has_numbers (pre @ contest # post)) st0"
      by (rule contest_loop_filter)
    also have "\<dots> = contest_loop envs b qs0 h a (filter has_numbers (pre @ post)) st0"
      using no by simp
    also have "\<dots> = contest_loop envs b qs0 h a (pre @ post) st0"
      by (rule contest_loop_filter [symmetric])
    finally show ?thesis .
  qed
  have eff: "filter (\<lambda>r. r_contestId r = c_id contest)
               (fst (contest_loop envs b qs0 h a (pre @ post) ([], w))) = []"
    "filter (\<lambda>row. contest_id (result row) = c_id contest)
       (quarter_results (snd (contest_loop envs b qs0 h a (pre @ post) ([], w)))) =
       filter (\<lambda>row. contest_id (result row) = c_id contest) (quarter_results w)"
    "filter (\<lambda>l. detail_contestId l = c_id contest)
       (processing_log (snd (contest_loop envs b qs0 h a (pre @ post) ([], w)))) =
       filter (\<lambda>l. detail_contestId l = c_id contest) (processing_log w)" for qs0
    using contest_loop_other_contest [OF ids, of envs b qs0 h a "[]" w] by simp_all
  have none: "\<forall>r \<in> set (fst (contest_loop envs b qs0 h a (pre @ post) ([], w))).
        r_contestId r \<noteq> c_id contest" for qs0
    using eff(1) [of qs0] by (simp add: filter_empty_conv)
  have response: "\<forall>qs' n results w'.
        serve_quarters envs b manualQuarter statusName completed period h a
          (Some (pre @ contest # post)) None w = (Processed qs' n results, w') \<longrightarrow>
        (\<forall>r \<in> set results. r_contestId r \<noteq> c_id contest) \<and>
        filter (\<lambda>row. contest_id (result row) = c_id contest) (quarter_results w') =
          filter (\<lambda>row. contest_id (result row) = c_id contest) (quarter_results w)"
  proof (intro allI impI)
    fix qs' n results w'
    assume run: "serve_quarters envs b manualQuarter statusName completed period h a
          (Some (pre @ contest # post)) None w = (Processed qs' n results, w')"
    then have "(results, w') = contest_loop envs b qs' h a (pre @ contest # post) ([], w)"
      by (auto simp add: serve_quarters_def split_beta split: option.splits if_splits)
    then have "contest_loop envs b qs' h a (pre @ post) ([], w) = (results, w')"
      by (simp only: skip)
    then have "results = fst (contest_loop envs b qs' h a (pre @ post) ([], w))"
      and "w' = snd (contest_loop envs b qs' h a (pre @ post) ([], w))"
      by simp_all
    with none [of qs'] eff(2) [of qs']
    show "(\<forall>r \<in> set results. r_contestId r \<noteq> c_id contest) \<and>
        filter (\<lambda>row. contest_id (result row) = c_id contest) (quarter_results w') =
          filter (\<lambda>row. contest_id (result row) = c_id contest) (quarter_results w)"
      by simp
  qed
  from skip [of qs st] none [of qs] eff(2,3) [of qs] response
  show ?thesis unfolding skip by blast
qed

subsection \<open>The writes of one call\<close>

lemma processQuarter_writes_unprocessed:
  "\<not> processed (fst (processQuarter e b contest q h a w)) \<Longrightarrow>
   processQuarter_writes e b contest q h a w = []"
  by (auto simp add: processQuarter_def processQuarter_writes_def Let_def squares_failure_def
      split_beta split: option.splits if_splits)

lemma processQuarter_writes_processed:
  assumes "processed (fst (processQuarter e b contest q h a w))"
  obtains squares where "squares_data e = Some squares"
    and "processQuarter_writes e b contest q h a w =
           [upsert_quarter_result
              (build_result contest q h a
                 (winningSquare contest squares (js_rem h 10) (js_rem a 10)))
              (quarter_results w),
            quarter_results (snd (processQuarter e b contest q h a w))]"
proof -
  from assms obtain squares where sq: "squares_data e = Some squares"
    and ok: "squares_error e = None" "upsert_error e = None"
    and nd: "\<not> (existing_winner_sent (existing_result w (c_id contest) q) \<and>
        existing_owner_sent (existing_result w (c_id contest) q))"
    by (auto simp add: processQuarter_processed_iff)
  show thesis
    by (rule that [OF sq])
      (use sq ok nd in \<open>auto simp add: processQuarter_def processQuarter_writes_def Let_def split_beta\<close>)
qed

lemma processQuarter_writes_last:
  "quarter_results (snd (processQuarter e b contest q h a w)) =
     last (quarter_results w # processQuarter_writes e b contest q h a w)"
proof (cases "processed (fst (processQuarter e b contest q h a w))")
  case True
  then show ?thesis by (rule processQuarter_writes_processed) simp
next
  case False
  then show ?thesis
    by (simp add: processQuarter_writes_unprocessed processQuarter_unprocessed)
qed

lemma upsert_score_rows:
  assumes "s_contest_id r = cid" and "s_quarter r = q"
  shows "filter (\<lambda>row. s_contest_id row = cid \<and> s_quarter row = q) (upsert_score r rows) \<noteq> []"
    and "row \<in> set (filter (\<lambda>row. s_contest_id row = cid \<and> s_quarter row = q)
                       (upsert_score r rows)) \<Longrightarrow> row = r"
  using assms
  by (auto simp add: upsert_score_def upsert_def list_ex_filter filter_empty_conv
      split: if_splits)

subsection \<open>Winner selection inside processQuarter\<close>

lemma processQuarter_stores_winner:
  assumes sq: "squares_data e = Some squares"
    and ok: "squares_error e = None" "upsert_error e = None"
    and fresh: "\<not> (existing_winner_sent (existing_result w (c_id contest) q) \<and>
         existing_owner_sent (existing_result w (c_id contest) q))"
  shows "processed (fst (processQuarter e b contest q homeScore awayScore w)) \<and>
        rows_for (c_id contest) q (snd (processQuarter e b contest q homeScore awayScore w)) \<noteq> [] \<and>
        (\<forall>row \<in> set (rows_for (c_id contest) q (snd (processQuarter e b contest q homeScore awayScore w))).
           home_score (result row) = homeScore \<and>
           away_score (result row) = awayScore \<and>
           home_last_digit (result row) = js_rem homeScore 10 \<and>
           away_last_digit (result row) = js_rem awayScore 10 \<and>
           winning_square_id (result row) = or_null (map_option sq_id (winningSquare contest squares (js_rem homeScore 10) (js_rem awayScore 10))) \<and>
           winner_first_name (result row) = or_null (Option.bind (winningSquare contest squares (js_rem homeScore 10) (js_rem awayScore 10)) claimant_first_name) \<and>
           winner_last_name (result row) = or_null (Option.bind (winningSquare contest squares (js_rem homeScore 10) (js_rem awayScore 10)) claimant_last_name) \<and>
           winner_email (result row) = or_null (Option.bind (winningSquare contest squares (js_rem homeScore 10) (js_rem awayScore 10)) claimant_email) \<and>
           winner_venmo (result row) = or_null (Option.bind (winningSquare contest squares (js_rem homeScore 10) (js_rem awayScore 10)) claimant_venmo)) \<and>
        filter (\<lambda>srow. s_contest_id srow = c_id contest \<and> s_quarter srow = q)
          (scores (snd (processQuarter e b contest q homeScore awayScore w))) \<noteq> [] \<and>
        (\<forall>srow \<in> set (filter (\<lambda>srow. s_contest_id srow = c_id contest \<and> s_quarter srow = q)
                          (scores (snd (processQuarter e b contest q homeScore awayScore w)))).
           s_home_score srow = homeScore \<and> s_away_score srow = awayScore \<and>
           s_winning_square_id srow = or_null (map_option sq_id (winningSquare contest squares (js_rem homeScore 10) (js_rem awayScore 10))))"
proof -
  let ?P = "processQuarter e b contest q homeScore awayScore w"
  let ?ws = "winningSquare contest squares (js_rem homeScore 10) (js_rem awayScore 10)"
  have pr: "processed (fst ?P)"
    using sq ok fresh by (simp add: processQuarter_processed_iff)
  from pr obtain squares' where sq': "squares_data e = Some squares'"
    and len: "length (rows_for (c_id contest) q (snd ?P)) =
                max 1 (length (rows_for (c_id contest) q w))"
    and all: "\<forall>row \<in> set (rows_for (c_id contest) q (snd ?P)).
           result row =
             (build_result contest q homeScore awayScore
                (winningSquare contest squares' (js_rem homeScore 10) (js_rem awayScore 10)))
               \<lparr>winner_email_sent :=
                  fst (send_winner_email e b contest q homeScore awayScore
                     (winningSquare contest squares' (js_rem homeScore 10) (js_rem awayScore 10))
                     (existing_result w (c_id contest) q) (outbox w)),
                owner_email_sent :=
                  fst (send_owner_email e contest q homeScore awayScore
                     (winningSquare contest squares' (js_rem homeScore 10) (js_rem awayScore 10))
                     (existing_result w (c_id contest) q)
                     (snd (send_winner_email e b contest q homeScore awayScore
                        (winningSquare contest squares' (js_rem homeScore 10) (js_rem awayScore 10))
                        (existing_result w (c_id contest) q) (outbox w))))\<rparr>"
    by (rule processQuarter_rows)
  from pr obtain squares'' where sq'': "squares_data e = Some squares''"
    and sc: "scores (snd ?P) =
           upsert_score
             \<lparr>s_contest_id = c_id contest, s_quarter = q, s_home_score = homeScore,
              s_away_score = awayScore,
              s_winning_square_id = or_null (map_option sq_id
                 (winningSquare contest squares'' (js_rem homeScore 10) (js_rem awayScore 10))),
              entered_at = now e\<rparr> (scores w)"
    by (rule processQuarter_processed)
  from sq sq' sq'' have same: "squares' = squares" "squares'' = squares" by simp_all
  from len have ne: "rows_for (c_id contest) q (snd ?P) \<noteq> []" by auto
  from all have stored: "\<forall>row \<in> set (rows_for (c_id contest) q (snd ?P)).
           home_score (result row) = homeScore \<and>
           away_score (result row) = awayScore \<and>
           home_last_digit (result row) = js_rem homeScore 10 \<and>
           away_last_digit (result row) = js_rem awayScore 10 \<and>
           winning_square_id (result row) = or_null (map_option sq_id ?ws) \<and>
           winner_first_name (result row) = or_null (Option.bind ?ws claimant_first_name) \<and>
           winner_last_name (result row) = or_null (Option.bind ?ws claimant_last_name) \<and>
           winner_email (result row) = or_null (Option.bind ?ws claimant_email) \<and>
           winner_venmo (result row) = or_null (Option.bind ?ws claimant_venmo)"
    by (simp add: same build_result_def)
  have mirror: "filter (\<lambda>srow. s_contest_id srow = c_id contest \<and> s_quarter srow = q)
          (scores (snd ?P)) \<noteq> [] \<and>
        (\<forall>srow \<in> set (filter (\<lambda>srow. s_contest_id srow = c_id contest \<and> s_quarter srow = q)
                          (scores (snd ?P))).
           s_home_score srow = homeScore \<and> s_away_score srow = awayScore \<and>
           s_winning_square_id srow = or_null (map_option sq_id ?ws))"
  proof (intro conjI ballI)
    show "filter (\<lambda>srow. s_contest_id srow = c_id contest \<and> s_quarter srow = q)
            (scores (snd ?P)) \<noteq> []"
      unfolding sc same by (rule upsert_score_rows(1)) simp_all
  next
    fix srow
    assume "srow \<in> set (filter (\<lambda>srow. s_contest_id srow = c_id contest \<and> s_quarter srow = q)
                          (scores (snd ?P)))"
    then have "srow = \<lparr>s_contest_id = c_id contest, s_quarter = q, s_home_score = homeScore,
              s_away_score = awayScore,
              s_winning_square_id = or_null (map_option sq_id ?ws), entered_at = now e\<rparr>"
      unfolding sc same by (rule upsert_score_rows(2) [rotated 2]) simp_all
    then show "s_home_score srow = homeScore" "s_away_score srow = awayScore"
      "s_winning_square_id srow = or_null (map_option sq_id ?ws)"
      by simp_all
  qed
  from pr ne stored mirror show ?thesis by (intro impI conjI) blast+
qed

text \<open>
  Claim C3. For a contest with both number assignments present and integer scores: the
  last digits are the remainders of the scores by 10 (for the scores of a game, which are
  not negative, this is \<open>mod 10\<close>); the winning row index is the first position of the
  home digit in \<open>row_numbers\<close>, the winning column index the first position of the away
  digit in \<open>col_numbers\<close>; when a digit is not found (or, for any contest, when an
  assignment is absent) there is no winner; otherwise the winner is the contest's square
  at that row and column index. And this is the computation of \<open>processQuarter\<close>: a call
  whose squares query and upsert succeed, on a pair not yet fully processed, is processed
  and stores for the pair these two digits and the id and contact fields of that square
  (null when there is no winner), and mirrors the scores and the id into the scores table.
\<close>

theorem winner_by_last_digits:
  assumes rows: "row_numbers contest = Some rn" and cols: "col_numbers contest = Some cn"
  shows
    "((0 \<le> homeScore \<longrightarrow> js_rem homeScore 10 = homeScore mod 10) \<and>
     (0 \<le> awayScore \<longrightarrow> js_rem awayScore 10 = awayScore mod 10) \<and>
     home_last_digit (build_result contest q homeScore awayScore ws) = js_rem homeScore 10 \<and>
     away_last_digit (build_result contest q homeScore awayScore ws) = js_rem awayScore 10 \<and>
     (js_rem homeScore 10 \<in> set rn \<longrightarrow>
        0 \<le> winningRowIndex contest (js_rem homeScore 10) \<and>
        winningRowIndex contest (js_rem homeScore 10) < int (length rn) \<and>
        rn ! nat (winningRowIndex contest (js_rem homeScore 10)) = js_rem homeScore 10 \<and>
        (\<forall>j < nat (winningRowIndex contest (js_rem homeScore 10)). rn ! j \<noteq> js_rem homeScore 10)) \<and>
     (js_rem awayScore 10 \<in> set cn \<longrightarrow>
        0 \<le> winningColIndex contest (js_rem awayScore 10) \<and>
        winningColIndex contest (js_rem awayScore 10) < int (length cn) \<and>
        cn ! nat (winningColIndex contest (js_rem awayScore 10)) = js_rem awayScore 10 \<and>
        (\<forall>j < nat (winningColIndex contest (js_rem awayScore 10)). cn ! j \<noteq> js_rem awayScore 10)) \<and>
     (js_rem homeScore 10 \<notin> set rn \<or> js_rem awayScore 10 \<notin> set cn \<longrightarrow>
        winningSquare contest squares (js_rem homeScore 10) (js_rem awayScore 10) = None) \<and>
     (js_rem homeScore 10 \<in> set rn \<and> js_rem awayScore 10 \<in> set cn \<longrightarrow>
        winningSquare contest squares (js_rem homeScore 10) (js_rem awayScore 10) =
          find (\<lambda>sq. row_index sq = winningRowIndex contest (js_rem homeScore 10) \<and>
                     col_index sq = winningColIndex contest (js_rem awayScore 10)) squares) \<and>
     (\<forall>sq. winningSquare contest squares (js_rem homeScore 10) (js_rem awayScore 10) = Some sq \<longrightarrow>
        sq \<in> set squares \<and>
        row_index sq = winningRowIndex contest (js_rem homeScore 10) \<and>
        col_index sq = winningColIndex contest (js_rem awayScore 10) \<and>
        rn ! nat (row_index sq) = js_rem homeScore 10 \<and>
        cn ! nat (col_index sq) = js_rem awayScore 10) \<and>
     (\<forall>other. row_numbers other = None \<or> col_numbers other = None \<longrightarrow>
        winningSquare other squares (js_rem homeScore 10) (js_rem awayScore 10) = None)) \<and>
     (squares_data e = Some squares \<and> squares_error e = None \<and> upsert_error e = None \<and>
      \<not> (existing_winner_sent (existing_result w (c_id contest) q) \<and>
         existing_owner_sent (existing_result w (c_id contest) q)) \<longrightarrow>
        processed (fst (processQuarter e b contest q homeScore awayScore w)) \<and>
        rows_for (c_id contest) q (snd (processQuarter e b contest q homeScore awayScore w)) \<noteq> [] \<and>
        (\<forall>row \<in> set (rows_for (c_id contest) q (snd (processQuarter e b contest q homeScore awayScore w))).
           home_score (result row) = homeScore \<and>
           away_score (result row) = awayScore \<and>
           home_last_digit (result row) = js_rem homeScore 10 \<and>
           away_last_digit (result row) = js_rem awayScore 10 \<and>
           winning_square_id (result row) = or_null (map_option sq_id (winningSquare contest squares (js_rem homeScore 10) (js_rem awayScore 10))) \<and>
           winner_first_name (result row) = or_null (Option.bind (winningSquare contest squares (js_rem homeScore 10) (js_rem awayScore 10)) claimant_first_name) \<and>
           winner_last_name (result row) = or_null (Option.bind (winningSquare contest squares (js_rem homeScore 10) (js_rem awayScore 10)) claimant_last_name) \<and>
           winner_email (result row) = or_null (Option.bind (winningSquare contest squares (js_rem homeScore 10) (js_rem awayScore 10)) claimant_email) \<and>
           winner_venmo (result row) = or_null (Option.bind (winningSquare contest squares (js_rem homeScore 10) (js_rem awayScore 10)) claimant_venmo)) \<and>
        filter (\<lambda>srow. s_contest_id srow = c_id contest \<and> s_quarter srow = q)
          (scores (snd (processQuarter e b contest q homeScore awayScore w))) \<noteq> [] \<and>
        (\<forall>srow \<in> set (filter (\<lambda>srow. s_contest_id srow = c_id contest \<and> s_quarter srow = q)
                          (scores (snd (processQuarter e b contest q homeScore awayScore w)))).
           s_home_score srow = homeScore \<and> s_away_score srow = awayScore \<and>
           s_winning_square_id srow = or_null (map_option sq_id (winningSquare contest squares (js_rem homeScore 10) (js_rem awayScore 10)))))"
proof -
  note selection = winner_selection [OF rows cols, of homeScore awayScore q ws squares]
  have stored: " (squares_data e = Some squares \<and> squares_error e = None \<and> upsert_error e = None \<and>
      \<not> (existing_winner_sent (existing_result w (c_id contest) q) \<and>
         existing_owner_sent (existing_result w (c_id contest) q)) \<longrightarrow>
        processed (fst (processQuarter e b contest q homeScore awayScore w)) \<and>
        rows_for (c_id contest) q (snd (processQuarter e b contest q homeScore awayScore w)) \<noteq> [] \<and>
        (\<forall>row \<in> set (rows_for (c_id contest) q (snd (processQuarter e b contest q homeScore awayScore w))).
           home_score (result row) = homeScore \<and>
           away_score (result row) = awayScore \<and>
           home_last_digit (result row) = js_rem homeScore 10 \<and>
           away_last_digit (result row) = js_rem awayScore 10 \<and>
           winning_square_id (result row) = or_null (map_option sq_id (winningSquare contest squares (js_rem homeScore 10) (js_rem awayScore 10))) \<and>
           winner_first_name (result row) = or_null (Option.bind (winningSquare contest squares (js_rem homeScore 10) (js_rem awayScore 10)) claimant_first_name) \<and>
           winner_last_name (result row) = or_null (Option.bind (winningSquare contest squares (js_rem homeScore 10) (js_rem awayScore 10)) claimant_last_name) \<and>
           winner_email (result row) = or_null (Option.bind (winningSquare contest squares (js_rem homeScore 10) (js_rem awayScore 10)) claimant_email) \<and>
           winner_venmo (result row) = or_null (Option.bind (winningSquare contest squares (js_rem homeScore 10) (js_rem awayScore 10)) claimant_venmo)) \<and>
        filter (\<lambda>srow. s_contest_id srow = c_id contest \<and> s_quarter srow = q)
          (scores (snd (processQuarter e b contest q homeScore awayScore w))) \<noteq> [] \<and>
        (\<forall>srow \<in> set (filter (\<lambda>srow. s_contest_id srow = c_id contest \<and> s_quarter srow = q)
                          (scores (snd (processQuarter e b contest q homeScore awayScore w)))).
           s_home_score srow = homeScore \<and> s_away_score srow = awayScore \<and>
           s_winning_square_id srow = or_null (map_option sq_id (winningSquare contest squares (js_rem homeScore 10) (js_rem awayScore 10)))))"
    by (intro impI, elim conjE, rule processQuarter_stores_winner)
  from selection stored show ?thesis by (rule conjI)
qed

subsection \<open>The sent flags across one call and inside it\<close>

text \<open>
  Claim C7, as amended. Across one call of \<open>processQuarter\<close>, on a table holding at
  most one row for the pair: a sent flag that was true in the stored row when the call
  started is true in the stored row of the pair when the call returns, for the winner flag
  and for the owner flag, on every return path. Inside a processed call the table is
  stored twice: the upsert stores both flags of the pair false, whatever they were, and
  the final update then stores the flags of the call, which is the table at return. A call
  that is not processed stores nothing.
\<close>

theorem email_flags_monotonic:
  assumes "length (rows_for (c_id contest) q w) \<le> 1"
    and "row \<in> set (rows_for (c_id contest) q w)"
  shows "(rows_for (c_id contest) q (snd (processQuarter e b contest q h a w)) \<noteq> [] \<and>
     (winner_email_sent (result row) \<longrightarrow>
        (\<forall>row' \<in> set (rows_for (c_id contest) q (snd (processQuarter e b contest q h a w))).
           winner_email_sent (result row'))) \<and>
     (owner_email_sent (result row) \<longrightarrow>
        (\<forall>row' \<in> set (rows_for (c_id contest) q (snd (processQuarter e b contest q h a w))).
           owner_email_sent (result row')))) \<and>
     (processed (fst (processQuarter e b contest q h a w)) \<longrightarrow>
        (\<exists>upserted.
           processQuarter_writes e b contest q h a w =
             [upserted, quarter_results (snd (processQuarter e b contest q h a w))] \<and>
           filter (for_quarter (c_id contest) q) upserted \<noteq> [] \<and>
           (\<forall>row' \<in> set (filter (for_quarter (c_id contest) q) upserted).
              \<not> winner_email_sent (result row') \<and> \<not> owner_email_sent (result row')))) \<and>
     (\<not> processed (fst (processQuarter e b contest q h a w)) \<longrightarrow>
        processQuarter_writes e b contest q h a w = [] \<and>
        snd (processQuarter e b contest q h a w) = w)"
proof -
  let ?P = "processQuarter e b contest q h a w"
  from assms have one: "rows_for (c_id contest) q w = [row]"
    by (cases "rows_for (c_id contest) q w") auto
  then have "existing_result w (c_id contest) q = Some row"
    by (simp add: existing_of_rows single_row_Some)
  from flags_kept [OF this, of e b h a]
  have ends: "rows_for (c_id contest) q (snd ?P) \<noteq> [] \<and>
     (winner_email_sent (result row) \<longrightarrow>
        (\<forall>row' \<in> set (rows_for (c_id contest) q (snd ?P)). winner_email_sent (result row'))) \<and>
     (owner_email_sent (result row) \<longrightarrow>
        (\<forall>row' \<in> set (rows_for (c_id contest) q (snd ?P)). owner_email_sent (result row')))"
    by blast
  have inside: "\<exists>upserted.
           processQuarter_writes e b contest q h a w = [upserted, quarter_results (snd ?P)] \<and>
           filter (for_quarter (c_id contest) q) upserted \<noteq> [] \<and>
           (\<forall>row' \<in> set (filter (for_quarter (c_id contest) q) upserted).
              \<not> winner_email_sent (result row') \<and> \<not> owner_email_sent (result row'))"
    if pr: "processed (fst ?P)"
  proof -
    from pr obtain squares where
      wr: "processQuarter_writes e b contest q h a w =
           [upsert_quarter_result
              (build_result contest q h a
                 (winningSquare contest squares (js_rem h 10) (js_rem a 10)))
              (quarter_results w),
            quarter_results (snd ?P)]"
      by (rule processQuarter_writes_processed)
    let ?r = "build_result contest q h a (winningSquare contest squares (js_rem h 10) (js_rem a 10))"
    have ne: "filter (for_quarter (c_id contest) q) (upsert_quarter_result ?r (quarter_results w)) \<noteq> []"
      using rows_upsert_same [of ?r "quarter_results w"] by (simp split: if_splits)
    from wr ne upsert_clears_flags [of contest q h a _ "quarter_results w"]
    show ?thesis by blast
  qed
  have outside: "processQuarter_writes e b contest q h a w = [] \<and> snd ?P = w"
    if "\<not> processed (fst ?P)"
    using that by (simp add: processQuarter_writes_unprocessed processQuarter_unprocessed)
  from ends inside outside show ?thesis by blast
qed

text \<open>
  At the concrete contest with stored flags (true, false): the stored winner flag is true
  at the start and false in the table the call stores first.
\<close>

theorem email_flags_reset_counterexample:
  "length (rows_for (c_id demo_contest) ''q1'' (demo_world True False)) = 1 \<and>
   winner_email_sent (result (hd (rows_for (c_id demo_contest) ''q1'' (demo_world True False)))) \<and>
   length (processQuarter_writes demo_env ''https://fundwell.us'' demo_contest ''q1'' 47 23
             (demo_world True False)) = 2 \<and>
   length (filter (for_quarter (c_id demo_contest) ''q1'')
             (hd (processQuarter_writes demo_env ''https://fundwell.us'' demo_contest ''q1'' 47 23
                    (demo_world True False)))) = 1 \<and>
   \<not> winner_email_sent
       (result (hd (filter (for_quarter (c_id demo_contest) ''q1'')
          (hd (processQuarter_writes demo_env ''https://fundwell.us'' demo_contest ''q1'' 47 23
                 (demo_world True False))))))"
  by code_simp

subsection \<open>The theorems at the concrete contest\<close>

theorem processQuarter_idempotent_witness:
  "existing_result (demo_world True True) (c_id demo_contest) ''q1'' = Some (demo_row True True) \<and>
   winner_email_sent (result (demo_row True True)) \<and>
   owner_email_sent (result (demo_row True True)) \<and>
   processQuarter demo_env ''https://fundwell.us'' demo_contest ''q1'' 47 23 (demo_world True True) =
     (\<lparr>processed = False, error = None\<rparr>, demo_world True True) \<and>
   length (rows_for (c_id demo_contest) ''q1'' demo_empty) \<le> 1 \<and>
   error (fst (processQuarter demo_env ''https://fundwell.us'' demo_contest ''q1'' 47 23 demo_empty)) = None \<and>
   length (rows_for (c_id demo_contest) ''q1''
     (snd (processQuarter demo_env ''https://fundwell.us'' demo_contest ''q1'' 47 23
        (snd (processQuarter demo_env ''https://fundwell.us'' demo_contest ''q1'' 47 23 demo_empty))))) = 1 \<and>
   winner_mails_sent
     (snd (processQuarter demo_env ''https://fundwell.us'' demo_contest ''q1'' 47 23
        (snd (processQuarter demo_env ''https://fundwell.us'' demo_contest ''q1'' 47 23 demo_empty))))
     \<le> winner_mails_sent demo_empty + 1 \<and>
   owner_mails_sent
     (snd (processQuarter demo_env ''https://fundwell.us'' demo_contest ''q1'' 47 23
        (snd (processQuarter demo_env ''https://fundwell.us'' demo_contest ''q1'' 47 23 demo_empty))))
     \<le> owner_mails_sent demo_empty + 1"
proof -
  have h1: "existing_result (demo_world True True) (c_id demo_contest) ''q1'' = Some (demo_row True True)"
    by code_simp
  have h2: "winner_email_sent (result (demo_row True True))"
    and h3: "owner_email_sent (result (demo_row True True))"
    by code_simp+
  have h4: "length (rows_for (c_id demo_contest) ''q1'' demo_empty) \<le> 1"
    by code_simp
  have h5: "error (fst (processQuarter demo_env ''https://fundwell.us'' demo_contest ''q1'' 47 23 demo_empty)) = None"
    by code_simp
  note once = processQuarter_idempotent
    [of "demo_world True True" demo_contest "''q1''" "demo_row True True"
        demo_env "''https://fundwell.us''" 47 23, THEN conjunct1]
  note twice = processQuarter_idempotent
    [of demo_empty demo_contest "''q1''" _ _ "''https://fundwell.us''" 47 23 demo_env demo_env,
     THEN conjunct2]
  from h1 h2 h3 once
  have c1: "processQuarter demo_env ''https://fundwell.us'' demo_contest ''q1'' 47 23 (demo_world True True) =
     (\<lparr>processed = False, error = None\<rparr>, demo_world True True)" by blast
  from h4 h5 twice h1 h2 h3 c1 show ?thesis by blast
qed


theorem retry_sends_only_owner_email_witness:
  "existing_result (demo_world True False) (c_id demo_contest) ''q1'' = Some (demo_row True False) \<and>
   winner_email_sent (result (demo_row True False)) \<and>
   \<not> owner_email_sent (result (demo_row True False)) \<and>
   (\<exists>c. outbox (snd (processQuarter demo_env ''https://fundwell.us'' demo_contest ''q1'' 47 23
                    (demo_world True False))) = outbox (demo_world True False) @ [c] \<and>
        is_owner_mail c \<and>
        mail_to c = the (Option.bind (getUserById demo_env (owner_id demo_contest)) user_email)) \<and>
   rows_for (c_id demo_contest) ''q1''
     (snd (processQuarter demo_env ''https://fundwell.us'' demo_contest ''q1'' 47 23
        (demo_world True False))) \<noteq> [] \<and>
   map (\<lambda>row. winner_email_sent (result row))
     (rows_for (c_id demo_contest) ''q1''
        (snd (processQuarter demo_env ''https://fundwell.us'' demo_contest ''q1'' 47 23
           (demo_world True False)))) = [True]"
proof -
  have h1: "existing_result (demo_world True False) (c_id demo_contest) ''q1'' = Some (demo_row True False)"
    by code_simp
  have h2: "winner_email_sent (result (demo_row True False))"
    and h3: "\<not> owner_email_sent (result (demo_row True False))"
    by code_simp+
  have h4: "processed (fst (processQuarter demo_env ''https://fundwell.us'' demo_contest ''q1'' 47 23
              (demo_world True False)))"
    by code_simp
  have h5: "truthy (Option.bind (getUserById demo_env (owner_id demo_contest)) user_email)"
    by code_simp
  have c: "map (\<lambda>row. winner_email_sent (result row))
     (rows_for (c_id demo_contest) ''q1''
        (snd (processQuarter demo_env ''https://fundwell.us'' demo_contest ''q1'' 47 23
           (demo_world True False)))) = [True]"
    by code_simp
  from retry_sends_only_owner_email [OF h1 h2 h3, of demo_env "''https://fundwell.us''" 47 23] h4 h5
  have "(\<exists>c. outbox (snd (processQuarter demo_env ''https://fundwell.us'' demo_contest ''q1'' 47 23
                    (demo_world True False))) = outbox (demo_world True False) @ [c] \<and>
        is_owner_mail c \<and>
        mail_to c = the (Option.bind (getUserById demo_env (owner_id demo_contest)) user_email)) \<and>
     rows_for (c_id demo_contest) ''q1''
       (snd (processQuarter demo_env ''https://fundwell.us'' demo_contest ''q1'' 47 23
          (demo_world True False))) \<noteq> []"
    by blast
  with h1 h2 h3 c show ?thesis by blast
qed

theorem manual_and_automated_agree_witness:
  "row_numbers demo_contest = Some [7, 3, 0, 1, 2, 4, 5, 6, 8, 9] \<and>
   col_numbers demo_contest = Some [3, 7, 0, 1, 2, 4, 5, 6, 8, 9] \<and>
   save_winningSquare [7, 3, 0, 1, 2, 4, 5, 6, 8, 9] [3, 7, 0, 1, 2, 4, 5, 6, 8, 9]
       (Some demo_squares) \<lparr>si_quarter = ''q1'', si_homeScore = 47, si_awayScore = 23\<rparr> =
     winningSquare demo_contest demo_squares (js_rem 47 10) (js_rem 23 10) \<and>
   winningSquare demo_contest demo_squares (js_rem 47 10) (js_rem 23 10) = Some (hd demo_squares) \<and>
   snd (saveScores demo_save_env (c_id demo_contest)
          [\<lparr>si_quarter = ''q1'', si_homeScore = 47, si_awayScore = 23\<rparr>] (scores demo_empty)) =
     scores (snd (processQuarter demo_env ''https://fundwell.us'' demo_contest ''q1'' 47 23 demo_empty)) \<and>
   winningSquare demo_pending demo_squares (js_rem 47 10) (js_rem 23 10) = None \<and>
   (\<exists>msg. saveScores (demo_save_env\<lparr>sv_contest := Some demo_pending\<rparr>) (c_id demo_pending)
            [\<lparr>si_quarter = ''q1'', si_homeScore = 47, si_awayScore = 23\<rparr>] (scores demo_empty) =
          (Inl msg, scores demo_empty))"
proof -
  have h1: "row_numbers demo_contest = Some [7, 3, 0, 1, 2, 4, 5, 6, 8, 9]"
    and h2: "col_numbers demo_contest = Some [3, 7, 0, 1, 2, 4, 5, 6, 8, 9]"
    by (simp_all add: demo_contest_def)
  have p: "row_numbers demo_pending = None \<or> col_numbers demo_pending = None"
    "sv_contest (demo_save_env\<lparr>sv_contest := Some demo_pending\<rparr>) = Some demo_pending"
    by (simp_all add: demo_pending_def)
  have g: "processed (fst (processQuarter demo_env ''https://fundwell.us'' demo_contest ''q1'' 47 23 demo_empty))"
    "squares_data demo_env = Some demo_squares"
    "sv_user demo_save_env = Some (owner_id demo_contest)"
    "sv_contest demo_save_env = Some demo_contest"
    "c_status demo_contest = ''in_progress''"
    "sv_squares_data demo_save_env = Some demo_squares"
    "sv_squares_error demo_save_env = None"
    "sv_upsert_error demo_save_env ''q1'' = None"
    "sv_now demo_save_env = now demo_env"
    by code_simp+
  have e: "winningSquare demo_contest demo_squares (js_rem 47 10) (js_rem 23 10) = Some (hd demo_squares)"
    by code_simp
  from manual_and_automated_agree [OF h1 h2 refl, of "''q1''" 47 23 demo_squares demo_env
      "''https://fundwell.us''" demo_empty demo_save_env] g p
  have "save_winningSquare [7, 3, 0, 1, 2, 4, 5, 6, 8, 9] [3, 7, 0, 1, 2, 4, 5, 6, 8, 9]
       (Some demo_squares) \<lparr>si_quarter = ''q1'', si_homeScore = 47, si_awayScore = 23\<rparr> =
     winningSquare demo_contest demo_squares (js_rem 47 10) (js_rem 23 10) \<and>
     snd (saveScores demo_save_env (c_id demo_contest)
          [\<lparr>si_quarter = ''q1'', si_homeScore = 47, si_awayScore = 23\<rparr>] (scores demo_empty)) =
     scores (snd (processQuarter demo_env ''https://fundwell.us'' demo_contest ''q1'' 47 23 demo_empty)) \<and>
     winningSquare demo_pending demo_squares (js_rem 47 10) (js_rem 23 10) = None \<and>
     (\<exists>msg. saveScores (demo_save_env\<lparr>sv_contest := Some demo_pending\<rparr>) (c_id demo_pending)
            [\<lparr>si_quarter = ''q1'', si_homeScore = 47, si_awayScore = 23\<rparr>] (scores demo_empty) =
          (Inl msg, scores demo_empty))"
    by blast
  with h1 h2 e show ?thesis by blast
qed

theorem quarter_resolution_table_witness:
  "truthy (Some ''q2'') \<and>
   quartersToProcess (Some ''q2'') ''STATUS_IN_PROGRESS'' False 2 = Some [''q2''] \<and>
   quartersToProcess None ''STATUS_FINAL'' False 4 = Some [''q1'', ''q2'', ''q3'', ''final''] \<and>
   quartersToProcess None ''STATUS_IN_PROGRESS'' True 4 = Some [''q1'', ''q2'', ''q3'', ''final''] \<and>
   quartersToProcess None ''STATUS_END_PERIOD'' False 3 = Some [''q1'', ''q2'', ''q3''] \<and>
   quartersToProcess None ''STATUS_HALFTIME'' False 2 = Some [''q1'', ''q2''] \<and>
   quartersToProcess None ''STATUS_END_PERIOD'' False 5 = Some [''q1'', ''q2'', ''q3'', ''final''] \<and>
   quartersToProcess None ''STATUS_IN_PROGRESS'' False 2 = None \<and>
   serve_quarters demo_envs ''https://fundwell.us'' None ''STATUS_IN_PROGRESS'' False 2 47 23
     (Some [demo_contest]) None demo_empty = (InProgress, demo_empty)"
proof -
  note row1 = quarter_resolution_table [THEN conjunct1, THEN mp]
  note row2 = quarter_resolution_table [THEN conjunct2, THEN conjunct1, THEN mp]
  note row3 = quarter_resolution_table [THEN conjunct2, THEN conjunct2, THEN conjunct1, THEN mp]
  note row4 = quarter_resolution_table [THEN conjunct2, THEN conjunct2, THEN conjunct2, THEN mp]
  have t: "truthy (Some ''q2'')" by (simp add: truthy_def)
  have a: "quartersToProcess (Some ''q2'') ''STATUS_IN_PROGRESS'' False 2 = Some [''q2'']"
    using row1 [OF t, of "''STATUS_IN_PROGRESS''" False 2] by simp
  have b: "quartersToProcess None ''STATUS_FINAL'' False 4 = Some [''q1'', ''q2'', ''q3'', ''final'']"
    by (rule row2) (simp add: truthy_def)
  have c: "quartersToProcess None ''STATUS_IN_PROGRESS'' True 4 = Some [''q1'', ''q2'', ''q3'', ''final'']"
    by (rule row2) (simp add: truthy_def)
  have "quartersToProcess None ''STATUS_END_PERIOD'' False 3 =
          Some (List.map_filter PERIOD_TO_QUARTER [1..min 3 4]) \<and>
        List.map_filter PERIOD_TO_QUARTER [1..min 3 4] =
          take (nat (min 3 4)) [''q1'', ''q2'', ''q3'', ''final'']"
    by (rule row3) (simp add: truthy_def)
  then have d: "quartersToProcess None ''STATUS_END_PERIOD'' False 3 = Some [''q1'', ''q2'', ''q3'']"
    by simp
  have "quartersToProcess None ''STATUS_HALFTIME'' False 2 =
          Some (List.map_filter PERIOD_TO_QUARTER [1..min 2 4]) \<and>
        List.map_filter PERIOD_TO_QUARTER [1..min 2 4] =
          take (nat (min 2 4)) [''q1'', ''q2'', ''q3'', ''final'']"
    by (rule row3) (simp add: truthy_def)
  then have e: "quartersToProcess None ''STATUS_HALFTIME'' False 2 = Some [''q1'', ''q2'']"
    by simp
  have "quartersToProcess None ''STATUS_END_PERIOD'' False 5 =
          Some (List.map_filter PERIOD_TO_QUARTER [1..min 5 4]) \<and>
        List.map_filter PERIOD_TO_QUARTER [1..min 5 4] =
          take (nat (min 5 4)) [''q1'', ''q2'', ''q3'', ''final'']"
    by (rule row3) (simp add: truthy_def)
  then have f: "quartersToProcess None ''STATUS_END_PERIOD'' False 5 = Some [''q1'', ''q2'', ''q3'', ''final'']"
    by simp
  have g: "quartersToProcess None ''STATUS_IN_PROGRESS'' False 2 = None \<and>
     serve_quarters demo_envs ''https://fundwell.us'' None ''STATUS_IN_PROGRESS'' False 2 47 23
       (Some [demo_contest]) None demo_empty = (InProgress, demo_empty)"
    by (rule row4) (simp add: truthy_def)
  from t a b c d e f g show ?thesis by (intro conjI) simp_all
qed

theorem prize_amount_formula_witness:
  "processed (fst (processQuarter demo_env ''https://fundwell.us'' demo_contest ''q1'' 47 23 demo_empty)) \<and>
   square_price demo_contest = 10 \<and> payout_column demo_contest ''q1'' = Some 25 \<and>
   getPrizeAmount demo_contest ''q1'' = 250 \<and>
   rows_for (c_id demo_contest) ''q1''
     (snd (processQuarter demo_env ''https://fundwell.us'' demo_contest ''q1'' 47 23 demo_empty)) \<noteq> [] \<and>
   map (\<lambda>row. prize_amount (result row))
     (rows_for (c_id demo_contest) ''q1''
        (snd (processQuarter demo_env ''https://fundwell.us'' demo_contest ''q1'' 47 23 demo_empty))) =
     [Some 250]"
proof -
  have h1: "processed (fst (processQuarter demo_env ''https://fundwell.us'' demo_contest ''q1'' 47 23 demo_empty))"
    by code_simp
  have h2: "square_price demo_contest = 10 \<and> payout_column demo_contest ''q1'' = Some 25"
    by (simp add: demo_contest_def payout_column_def)
  have c: "map (\<lambda>row. prize_amount (result row))
     (rows_for (c_id demo_contest) ''q1''
        (snd (processQuarter demo_env ''https://fundwell.us'' demo_contest ''q1'' 47 23 demo_empty))) =
     [Some 250]"
    by code_simp
  note stored = prize_amount_formula [of demo_contest "''q1''" demo_env "''https://fundwell.us''"
      47 23 demo_empty, THEN conjunct2, THEN conjunct1, THEN mp, OF h1, THEN conjunct1]
  note example = prize_amount_formula [of demo_contest "''q1''" demo_env "''https://fundwell.us''"
      47 23 demo_empty, THEN conjunct2, THEN conjunct2, THEN mp, OF h2]
  from h1 h2 c stored example show ?thesis by (intro conjI) simp_all
qed


theorem contest_without_numbers_skipped_witness:
  "row_numbers demo_pending = None \<and>
   contest_loop demo_envs ''https://fundwell.us'' [''q1'', ''q2''] 47 23
       [demo_pending, demo_contest] ([], demo_empty) =
     contest_loop demo_envs ''https://fundwell.us'' [''q1'', ''q2''] 47 23
       [demo_contest] ([], demo_empty) \<and>
   map r_contestId
     (fst (contest_loop demo_envs ''https://fundwell.us'' [''q1'', ''q2''] 47 23
        [demo_pending, demo_contest] ([], demo_empty))) = [''c1'', ''c1''] \<and>
   list_all (\<lambda>r. r_contestId r \<noteq> c_id demo_pending)
     (fst (contest_loop demo_envs ''https://fundwell.us'' [''q1'', ''q2''] 47 23
        [demo_pending, demo_contest] ([], demo_empty))) \<and>
   filter (\<lambda>row. contest_id (result row) = c_id demo_pending)
     (quarter_results (snd (contest_loop demo_envs ''https://fundwell.us'' [''q1'', ''q2''] 47 23
        [demo_pending, demo_contest] ([], demo_empty)))) = [] \<and>
   filter (\<lambda>l. detail_contestId l = c_id demo_pending)
     (processing_log (snd (contest_loop demo_envs ''https://fundwell.us'' [''q1'', ''q2''] 47 23
        [demo_pending, demo_contest] ([], demo_empty)))) = []"
proof -
  have h0: "row_numbers demo_pending = None" by (simp add: demo_pending_def)
  then have h1: "row_numbers demo_pending = None \<or> col_numbers demo_pending = None" ..
  have h2: "\<forall>c \<in> set ([] @ [demo_contest]). has_numbers c \<longrightarrow> c_id c \<noteq> c_id demo_pending"
    by (simp add: demo_pending_def demo_contest_def)
  have e: "map r_contestId
     (fst (contest_loop demo_envs ''https://fundwell.us'' [''q1'', ''q2''] 47 23
        [demo_pending, demo_contest] ([], demo_empty))) = [''c1'', ''c1'']"
    by code_simp
  have z: "filter (\<lambda>row. contest_id (result row) = c_id demo_pending) (quarter_results demo_empty) = []"
    "filter (\<lambda>l. detail_contestId l = c_id demo_pending) (processing_log demo_empty) = []"
    by (simp_all add: demo_empty_def)
  note skip = contest_without_numbers_skipped [OF h1 h2, of demo_envs "''https://fundwell.us''" "[''q1'', ''q2'']" 47 23 "([], demo_empty)"
      demo_empty]
  from skip have c1: "contest_loop demo_envs ''https://fundwell.us'' [''q1'', ''q2''] 47 23
       [demo_pending, demo_contest] ([], demo_empty) =
     contest_loop demo_envs ''https://fundwell.us'' [''q1'', ''q2''] 47 23
       [demo_contest] ([], demo_empty)"
    by (simp only: append_Nil)
  from skip [THEN conjunct2, THEN conjunct1]
  have c2: "list_all (\<lambda>r. r_contestId r \<noteq> c_id demo_pending)
     (fst (contest_loop demo_envs ''https://fundwell.us'' [''q1'', ''q2''] 47 23
        [demo_pending, demo_contest] ([], demo_empty)))"
    by (simp only: list_all_iff append_Nil)
  from skip [THEN conjunct2, THEN conjunct2, THEN conjunct1]
  have c3: "filter (\<lambda>row. contest_id (result row) = c_id demo_pending)
     (quarter_results (snd (contest_loop demo_envs ''https://fundwell.us'' [''q1'', ''q2''] 47 23
        [demo_pending, demo_contest] ([], demo_empty)))) = []"
    by (simp only: z append_Nil)
  from skip [THEN conjunct2, THEN conjunct2, THEN conjunct2, THEN conjunct1]
  have c4: "filter (\<lambda>l. detail_contestId l = c_id demo_pending)
     (processing_log (snd (contest_loop demo_envs ''https://fundwell.us'' [''q1'', ''q2''] 47 23
        [demo_pending, demo_contest] ([], demo_empty)))) = []"
    by (simp only: z append_Nil)
  from h0 c1 e c2 c3 c4 show ?thesis by (intro conjI)
qed

theorem absent_payout_is_zero_witness:
  "payout_column demo_contest ''q2'' = None \<and>
   getPayoutPercent demo_contest ''q2'' = 0 \<and> getPrizeAmount demo_contest ''q2'' = 0 \<and>
   processed (fst (processQuarter demo_env ''https://fundwell.us'' demo_contest ''q2'' 47 23 demo_empty)) \<and>
   list_all (\<lambda>row. prize_amount (result row) = Some 0 \<and> payout_percent (result row) = Some 0)
     (rows_for (c_id demo_contest) ''q2''
        (snd (processQuarter demo_env ''https://fundwell.us'' demo_contest ''q2'' 47 23 demo_empty))) \<and>
   map mail_to
     (outbox (snd (processQuarter demo_env ''https://fundwell.us'' demo_contest ''q2'' 47 23 demo_empty))) =
     [''ann@example.com'', ''owner@example.com''] \<and>
   processQuarter demo_env ''https://fundwell.us''
       (demo_contest\<lparr>payout_q1_percent := Some 25, payout_q2_percent := Some 0,
                      payout_q3_percent := Some 25, payout_final_percent := Some 25\<rparr>)
       ''q2'' 47 23 demo_empty =
     processQuarter demo_env ''https://fundwell.us'' demo_contest ''q2'' 47 23 demo_empty"
proof -
  have h1: "payout_column demo_contest ''q2'' = None"
    by (simp add: demo_contest_def payout_column_def)
  have h2: "processed (fst (processQuarter demo_env ''https://fundwell.us'' demo_contest ''q2'' 47 23 demo_empty))"
    by code_simp
  have h3: "payout_column (demo_contest\<lparr>payout_q1_percent := Some 25, payout_q2_percent := Some 0,
                      payout_q3_percent := Some 25, payout_final_percent := Some 25\<rparr>) ''q2'' = Some 0"
    by (simp add: payout_column_def)
  have e: "map mail_to
     (outbox (snd (processQuarter demo_env ''https://fundwell.us'' demo_contest ''q2'' 47 23 demo_empty))) =
     [''ann@example.com'', ''owner@example.com'']"
    by code_simp
  note zero = absent_payout_is_zero [OF h1, of demo_env "''https://fundwell.us''" 47 23 demo_empty]
  from zero have c1: "getPayoutPercent demo_contest ''q2'' = 0" by (rule conjunct1)
  from zero [THEN conjunct2] have c2: "getPrizeAmount demo_contest ''q2'' = 0" by (rule conjunct1)
  from zero [THEN conjunct2, THEN conjunct2, THEN conjunct1, THEN mp, OF h2, THEN conjunct2]
  have c3: "list_all (\<lambda>row. prize_amount (result row) = Some 0 \<and> payout_percent (result row) = Some 0)
     (rows_for (c_id demo_contest) ''q2''
        (snd (processQuarter demo_env ''https://fundwell.us'' demo_contest ''q2'' 47 23 demo_empty)))"
    by (simp only: list_all_iff)
  from zero [THEN conjunct2, THEN conjunct2, THEN conjunct2, THEN spec, THEN spec, THEN spec,
      THEN spec, THEN mp, OF h3]
  have c4: "processQuarter demo_env ''https://fundwell.us''
       (demo_contest\<lparr>payout_q1_percent := Some 25, payout_q2_percent := Some 0,
                      payout_q3_percent := Some 25, payout_final_percent := Some 25\<rparr>)
       ''q2'' 47 23 demo_empty =
     processQuarter demo_env ''https://fundwell.us'' demo_contest ''q2'' 47 23 demo_empty" .
  from h1 c1 c2 h2 c3 e c4 show ?thesis by (intro conjI)
qed

theorem winner_by_last_digits_witness:
  "row_numbers demo_contest = Some [7, 3, 0, 1, 2, 4, 5, 6, 8, 9] \<and>
   col_numbers demo_contest = Some [3, 7, 0, 1, 2, 4, 5, 6, 8, 9] \<and>
   js_rem 47 10 = 47 mod 10 \<and> js_rem 23 10 = 23 mod 10 \<and>
   js_rem 47 10 = 7 \<and> js_rem 23 10 = 3 \<and>
   winningRowIndex demo_contest (js_rem 47 10) = 0 \<and>
   winningColIndex demo_contest (js_rem 23 10) = 0 \<and>
   [7, 3, 0, 1, 2, 4, 5, 6, 8, 9] ! nat (winningRowIndex demo_contest (js_rem 47 10)) = js_rem 47 10 \<and>
   [3, 7, 0, 1, 2, 4, 5, 6, 8, 9] ! nat (winningColIndex demo_contest (js_rem 23 10)) = js_rem 23 10 \<and>
   winningSquare demo_contest demo_squares (js_rem 47 10) (js_rem 23 10) = Some (hd demo_squares) \<and>
   winningSquare demo_pending demo_squares (js_rem 47 10) (js_rem 23 10) = None \<and>
   processed (fst (processQuarter demo_env ''https://fundwell.us'' demo_contest ''q1'' 47 23 demo_empty)) \<and>
   rows_for (c_id demo_contest) ''q1''
     (snd (processQuarter demo_env ''https://fundwell.us'' demo_contest ''q1'' 47 23 demo_empty)) \<noteq> [] \<and>
   list_all (\<lambda>row. home_last_digit (result row) = js_rem 47 10 \<and>
                    away_last_digit (result row) = js_rem 23 10 \<and>
                    winning_square_id (result row) =
                      or_null (map_option sq_id
                        (winningSquare demo_contest demo_squares (js_rem 47 10) (js_rem 23 10))) \<and>
                    winner_email (result row) =
                      or_null (Option.bind
                        (winningSquare demo_contest demo_squares (js_rem 47 10) (js_rem 23 10))
                        claimant_email))
     (rows_for (c_id demo_contest) ''q1''
        (snd (processQuarter demo_env ''https://fundwell.us'' demo_contest ''q1'' 47 23 demo_empty))) \<and>
   map (\<lambda>row. (home_last_digit (result row), away_last_digit (result row),
                winning_square_id (result row)))
     (rows_for (c_id demo_contest) ''q1''
        (snd (processQuarter demo_env ''https://fundwell.us'' demo_contest ''q1'' 47 23 demo_empty))) =
     [(7, 3, Some ''s00'')] \<and>
   map s_winning_square_id
     (scores (snd (processQuarter demo_env ''https://fundwell.us'' demo_contest ''q1'' 47 23 demo_empty))) =
     [Some ''s00'']"
proof -
  let ?P = "processQuarter demo_env ''https://fundwell.us'' demo_contest ''q1'' 47 23 demo_empty"
  have h1: "row_numbers demo_contest = Some [7, 3, 0, 1, 2, 4, 5, 6, 8, 9]"
    and h2: "col_numbers demo_contest = Some [3, 7, 0, 1, 2, 4, 5, 6, 8, 9]"
    by (simp_all add: demo_contest_def)
  have d: "js_rem 47 10 = 7" "js_rem 23 10 = 3" "(0::int) \<le> 47" "(0::int) \<le> 23"
    by (simp_all add: js_rem_def)
  have m: "js_rem 47 10 \<in> set [7, 3, 0, 1, 2, 4, 5, 6, 8, 9]"
          "js_rem 23 10 \<in> set [3, 7, 0, 1, 2, 4, 5, 6, 8, 9]"
    by (simp_all add: d)
  have p: "row_numbers demo_pending = None \<or> col_numbers demo_pending = None"
    by (simp add: demo_pending_def)
  have g: "squares_data demo_env = Some demo_squares \<and> squares_error demo_env = None \<and>
      upsert_error demo_env = None \<and>
      \<not> (existing_winner_sent (existing_result demo_empty (c_id demo_contest) ''q1'') \<and>
         existing_owner_sent (existing_result demo_empty (c_id demo_contest) ''q1''))"
    by code_simp
  have e: "winningRowIndex demo_contest (js_rem 47 10) = 0"
          "winningColIndex demo_contest (js_rem 23 10) = 0"
          "winningSquare demo_contest demo_squares (js_rem 47 10) (js_rem 23 10) = Some (hd demo_squares)"
          "map (\<lambda>row. (home_last_digit (result row), away_last_digit (result row),
                winning_square_id (result row)))
             (rows_for (c_id demo_contest) ''q1'' (snd ?P)) = [(7, 3, Some ''s00'')]"
          "map s_winning_square_id (scores (snd ?P)) = [Some ''s00'']"
    by code_simp+
  note inst = winner_by_last_digits [OF h1 h2, of 47 23 "''q1''" None demo_squares demo_env
      demo_empty "''https://fundwell.us''"]
  from inst [THEN conjunct1] d(3,4) m p
  have sel: "js_rem 47 10 = 47 mod 10 \<and> js_rem 23 10 = 23 mod 10 \<and>
    [7, 3, 0, 1, 2, 4, 5, 6, 8, 9] ! nat (winningRowIndex demo_contest (js_rem 47 10)) = js_rem 47 10 \<and>
    [3, 7, 0, 1, 2, 4, 5, 6, 8, 9] ! nat (winningColIndex demo_contest (js_rem 23 10)) = js_rem 23 10 \<and>
    winningSquare demo_pending demo_squares (js_rem 47 10) (js_rem 23 10) = None"
    by blast
  note stored = inst [THEN conjunct2, THEN mp, OF g]
  from stored have c1: "processed (fst ?P)" by (rule conjunct1)
  from stored [THEN conjunct2] have c2: "rows_for (c_id demo_contest) ''q1'' (snd ?P) \<noteq> []"
    by (rule conjunct1)
  from stored [THEN conjunct2, THEN conjunct2, THEN conjunct1]
  have c3: "list_all (\<lambda>row. home_last_digit (result row) = js_rem 47 10 \<and>
                    away_last_digit (result row) = js_rem 23 10 \<and>
                    winning_square_id (result row) =
                      or_null (map_option sq_id
                        (winningSquare demo_contest demo_squares (js_rem 47 10) (js_rem 23 10))) \<and>
                    winner_email (result row) =
                      or_null (Option.bind
                        (winningSquare demo_contest demo_squares (js_rem 47 10) (js_rem 23 10))
                        claimant_email))
     (rows_for (c_id demo_contest) ''q1'' (snd ?P))"
    by (simp add: list_all_iff)
  from h1 h2 sel d(1,2) e c1 c2 c3 show ?thesis by (intro conjI) simp_all
qed

theorem email_flags_monotonic_witness:
  "length (rows_for (c_id demo_contest) ''q1'' (demo_world True False)) \<le> 1 \<and>
   demo_row True False \<in> set (rows_for (c_id demo_contest) ''q1'' (demo_world True False)) \<and>
   winner_email_sent (result (demo_row True False)) \<and>
   rows_for (c_id demo_contest) ''q1''
     (snd (processQuarter demo_env ''https://fundwell.us'' demo_contest ''q1'' 47 23
        (demo_world True False))) \<noteq> [] \<and>
   list_all (\<lambda>row. winner_email_sent (result row))
     (rows_for (c_id demo_contest) ''q1''
        (snd (processQuarter demo_env ''https://fundwell.us'' demo_contest ''q1'' 47 23
           (demo_world True False)))) \<and>
   processed (fst (processQuarter demo_env ''https://fundwell.us'' demo_contest ''q1'' 47 23
        (demo_world True False))) \<and>
   (\<exists>upserted.
      processQuarter_writes demo_env ''https://fundwell.us'' demo_contest ''q1'' 47 23
          (demo_world True False) =
        [upserted,
         quarter_results (snd (processQuarter demo_env ''https://fundwell.us'' demo_contest ''q1'' 47 23
            (demo_world True False)))] \<and>
      filter (for_quarter (c_id demo_contest) ''q1'') upserted \<noteq> [] \<and>
      list_all (\<lambda>row. \<not> winner_email_sent (result row) \<and> \<not> owner_email_sent (result row))
        (filter (for_quarter (c_id demo_contest) ''q1'') upserted))"
proof -
  let ?P = "processQuarter demo_env ''https://fundwell.us'' demo_contest ''q1'' 47 23 (demo_world True False)"
  have h1: "length (rows_for (c_id demo_contest) ''q1'' (demo_world True False)) \<le> 1"
    by code_simp
  have h2: "demo_row True False \<in> set (rows_for (c_id demo_contest) ''q1'' (demo_world True False))"
    by (simp add: rows_for_def demo_world_def demo_empty_def demo_row_def for_quarter_def
        demo_contest_def)
  have h3: "winner_email_sent (result (demo_row True False))"
    by code_simp
  have h4: "processed (fst ?P)" by code_simp
  note kept = email_flags_monotonic [OF h1 h2, of demo_env "''https://fundwell.us''" 47 23]
  from kept [THEN conjunct1] have c1: "rows_for (c_id demo_contest) ''q1'' (snd ?P) \<noteq> []"
    by (rule conjunct1)
  from kept [THEN conjunct1, THEN conjunct2, THEN conjunct1, THEN mp, OF h3]
  have c2: "list_all (\<lambda>row. winner_email_sent (result row))
     (rows_for (c_id demo_contest) ''q1'' (snd ?P))"
    by (simp only: list_all_iff)
  from kept [THEN conjunct2, THEN conjunct1, THEN mp, OF h4]
  have c3: "\<exists>upserted.
      processQuarter_writes demo_env ''https://fundwell.us'' demo_contest ''q1'' 47 23
          (demo_world True False) = [upserted, quarter_results (snd ?P)] \<and>
      filter (for_quarter (c_id demo_contest) ''q1'') upserted \<noteq> [] \<and>
      list_all (\<lambda>row. \<not> winner_email_sent (result row) \<and> \<not> owner_email_sent (result row))
        (filter (for_quarter (c_id demo_contest) ''q1'') upserted)"
    by (simp only: list_all_iff)
  from h1 h2 h3 c1 c2 h4 c3 show ?thesis by (intro conjI)
qed

end
